theory Spec2Isabelle
  imports Complex_Main
begin

section \<open>Double-precision numbers\<close>

text \<open>
  The library computes on C++ \<open>double\<close>, the IEEE 754 binary64 format. A \<open>double\<close> is a
  finite number \<open>Fin r\<close> (with \<open>Fin 0\<close> the positive zero), the negative zero, an infinity,
  or NaN. The sign and payload of a NaN are not represented.
\<close>

datatype double = Fin real | NegZero | PInf | NInf | NaN

fun valof :: "double \<Rightarrow> real" where
  "valof (Fin r) = r"
| "valof NegZero = 0"
| "valof PInf = 0"
| "valof NInf = 0"
| "valof NaN = 0"

fun sign_bit :: "double \<Rightarrow> bool" where
  "sign_bit (Fin r) = (r < 0)"
| "sign_bit NegZero = True"
| "sign_bit PInf = False"
| "sign_bit NInf = True"
| "sign_bit NaN = False"

fun is_finite :: "double \<Rightarrow> bool" where
  "is_finite (Fin r) = True"
| "is_finite NegZero = True"
| "is_finite PInf = False"
| "is_finite NInf = False"
| "is_finite NaN = False"

definition is_inf :: "double \<Rightarrow> bool" where
  "is_inf a = (a = PInf \<or> a = NInf)"

definition is_zero :: "double \<Rightarrow> bool" where
  "is_zero a = (a = Fin 0 \<or> a = NegZero)"

definition zero_of :: "bool \<Rightarrow> double" where
  "zero_of s = (if s then NegZero else Fin 0)"

definition inf_of :: "bool \<Rightarrow> double" where
  "inf_of s = (if s then NInf else PInf)"

text \<open>Rounding a nonnegative real to the nearest natural number, a tie to the even one.\<close>

definition round_half_even :: "real \<Rightarrow> nat" where
  "round_half_even r =
     (let f = nat \<lfloor>r\<rfloor>; rest = r - of_nat f
      in if rest < 1 / 2 then f
         else if 1 / 2 < rest then f + 1
         else if even f then f else f + 1)"

text \<open>
  Rounding a real to the nearest \<open>double\<close>, a tie to the even significand (the default
  rounding of IEEE 754). Near a magnitude \<open>a\<close> the doubles are the multiples of
  \<open>quantum a = 2 powi (e - 52)\<close>, where \<open>2 powi e \<le> a < 2 powi (e + 1)\<close> and \<open>e\<close> is at
  least \<open>-1022\<close> (below \<open>2 powi (-1022)\<close> the doubles are subnormal, all multiples of
  \<open>2 powi (-1074)\<close>). \<open>nearest a\<close> is the multiple nearest to \<open>a\<close>. A result of
  magnitude \<open>huge = 2 ^ 1024\<close> overflows to an infinity; a nonzero real that rounds to
  zero keeps its sign.
\<close>

definition quantum :: "real \<Rightarrow> real" where
  "quantum a = 2 powi (max \<lfloor>log 2 a\<rfloor> (- 1022) - 52)"

definition nearest :: "real \<Rightarrow> real" where
  "nearest a = real (round_half_even (a / quantum a)) * quantum a"

definition huge :: real where
  "huge = 2 ^ 1024"

definition round_to_double :: "real \<Rightarrow> double" where
  "round_to_double r =
     (if r = 0 then Fin 0
      else
        let v = nearest \<bar>r\<bar>
        in if huge \<le> v then (if r < 0 then NInf else PInf)
           else if v = 0 then (if r < 0 then NegZero else Fin 0)
           else Fin (if r < 0 then - v else v))"

text \<open>A value of the model is a \<open>double\<close> when rounding leaves it as it is.\<close>

fun is_double :: "double \<Rightarrow> bool" where
  "is_double (Fin r) = (round_to_double r = Fin r)"
| "is_double NegZero = True"
| "is_double PInf = True"
| "is_double NInf = True"
| "is_double NaN = True"

text \<open>
  The operations of C++ on \<open>double\<close>: unary minus, \<open>+\<close>, \<open>-\<close>, \<open>*\<close>, \<open>/\<close>, \<open>sqrt\<close>,
  \<open><\<close> and \<open>==\<close>. Each one rounds its exact result once, to double precision: the
  model has neither fused multiply-add nor intermediate results of extended precision.
\<close>

fun fneg :: "double \<Rightarrow> double" where
  "fneg (Fin r) = (if r = 0 then NegZero else Fin (- r))"
| "fneg NegZero = Fin 0"
| "fneg PInf = NInf"
| "fneg NInf = PInf"
| "fneg NaN = NaN"

definition fadd :: "double \<Rightarrow> double \<Rightarrow> double" where
  "fadd a b =
     (if a = NaN \<or> b = NaN then NaN
      else if is_inf a then (if is_inf b \<and> a \<noteq> b then NaN else a)
      else if is_inf b then b
      else
        let r = valof a + valof b
        in if r = 0 then (if a = NegZero \<and> b = NegZero then NegZero else Fin 0)
           else round_to_double r)"

definition fsub :: "double \<Rightarrow> double \<Rightarrow> double" where
  "fsub a b = fadd a (fneg b)"

definition fmul :: "double \<Rightarrow> double \<Rightarrow> double" where
  "fmul a b =
     (if a = NaN \<or> b = NaN then NaN
      else if (is_inf a \<and> is_zero b) \<or> (is_zero a \<and> is_inf b) then NaN
      else
        let s = (sign_bit a \<noteq> sign_bit b)
        in if is_inf a \<or> is_inf b then inf_of s
           else
             let r = valof a * valof b
             in if r = 0 then zero_of s else round_to_double r)"

definition fdiv :: "double \<Rightarrow> double \<Rightarrow> double" where
  "fdiv a b =
     (if a = NaN \<or> b = NaN then NaN
      else if (is_inf a \<and> is_inf b) \<or> (is_zero a \<and> is_zero b) then NaN
      else
        let s = (sign_bit a \<noteq> sign_bit b)
        in if is_inf a then inf_of s
           else if is_inf b then zero_of s
           else if is_zero b then inf_of s
           else if is_zero a then zero_of s
           else round_to_double (valof a / valof b))"

fun fsqrt :: "double \<Rightarrow> double" where
  "fsqrt (Fin r) = (if r < 0 then NaN else round_to_double (sqrt r))"
| "fsqrt NegZero = NegZero"
| "fsqrt PInf = PInf"
| "fsqrt NInf = NaN"
| "fsqrt NaN = NaN"

definition flt :: "double \<Rightarrow> double \<Rightarrow> bool" where
  "flt a b =
     (if a = NaN \<or> b = NaN then False
      else if a = PInf \<or> b = NInf then False
      else if a = NInf \<or> b = PInf then True
      else valof a < valof b)"

definition feq :: "double \<Rightarrow> double \<Rightarrow> bool" where
  "feq a b =
     (if a = NaN \<or> b = NaN then False
      else if is_inf a \<or> is_inf b then a = b
      else valof a = valof b)"

section \<open>Vector3\<close>

record Vector3 =
  x :: double
  y :: double
  z :: double

text \<open>
  The two constructors: \<open>Vector3()\<close>, which stores the \<open>float\<close> literal \<open>0.0f\<close> in each
  field, and \<open>Vector3(x, y, z)\<close>.
\<close>

definition Vector3_default :: Vector3 where
  "Vector3_default = \<lparr>x = Fin 0, y = Fin 0, z = Fin 0\<rparr>"

definition mk_Vector3 :: "double \<Rightarrow> double \<Rightarrow> double \<Rightarrow> Vector3" where
  "mk_Vector3 a b c = \<lparr>x = a, y = b, z = c\<rparr>"

text \<open>\<open>operator+(v1, v2)\<close>\<close>

definition add :: "Vector3 \<Rightarrow> Vector3 \<Rightarrow> Vector3" where
  "add v1 v2 = mk_Vector3 (fadd (x v1) (x v2)) (fadd (y v1) (y v2)) (fadd (z v1) (z v2))"

text \<open>\<open>operator*(scalar, v1)\<close>\<close>

definition scale :: "double \<Rightarrow> Vector3 \<Rightarrow> Vector3" where
  "scale scalar v1 = mk_Vector3 (fmul scalar (x v1)) (fmul scalar (y v1)) (fmul scalar (z v1))"

text \<open>
  \<open>operator-(v1, v2)\<close>, written in the source as \<open>v1 + (-1 * v2)\<close>; the \<open>int\<close> literal
  \<open>-1\<close> is converted to the double \<open>-1\<close>.
\<close>

definition subtract :: "Vector3 \<Rightarrow> Vector3 \<Rightarrow> Vector3" where
  "subtract v1 v2 = add v1 (scale (Fin (- 1)) v2)"

text \<open>\<open>operator*(v1, v2)\<close>, the dot product; C++ adds from left to right.\<close>

definition dot :: "Vector3 \<Rightarrow> Vector3 \<Rightarrow> double" where
  "dot v1 v2 =
     fadd (fadd (fmul (x v1) (x v2)) (fmul (y v1) (y v2))) (fmul (z v1) (z v2))"

text \<open>
  \<open>operator==(v1, v2)\<close>, with its \<open>static double epsilon = 0.005\<close>: the literal denotes
  the double nearest to \<open>5/1000\<close>.
\<close>

definition epsilon :: double where
  "epsilon = round_to_double (5 / 1000)"

definition equals :: "Vector3 \<Rightarrow> Vector3 \<Rightarrow> bool" where
  "equals v1 v2 =
     (let diff = subtract v1 v2;
          x_ok = (flt (x diff) epsilon \<and> flt (fneg epsilon) (x diff));
          y_ok = (flt (y diff) epsilon \<and> flt (fneg epsilon) (y diff));
          z_ok = (flt (z diff) epsilon \<and> flt (fneg epsilon) (z diff))
      in x_ok \<and> y_ok \<and> z_ok)"

definition cross :: "Vector3 \<Rightarrow> Vector3 \<Rightarrow> Vector3" where
  "cross v1 v2 =
     mk_Vector3 (fsub (fmul (y v1) (z v2)) (fmul (z v1) (y v2)))
                (fsub (fmul (z v1) (x v2)) (fmul (x v1) (z v2)))
                (fsub (fmul (x v1) (y v2)) (fmul (y v1) (x v2)))"

text \<open>\<open>Vector3::norm()\<close>\<close>

definition Vector3_norm :: "Vector3 \<Rightarrow> double" where
  "Vector3_norm v =
     fsqrt (fadd (fadd (fmul (x v) (x v)) (fmul (y v) (y v))) (fmul (z v) (z v)))"

text \<open>
  \<open>Vector3::normalize()\<close> changes its receiver in place; the model returns the receiver
  as it is after the call.
\<close>

definition Vector3_normalize :: "Vector3 \<Rightarrow> Vector3" where
  "Vector3_normalize v =
     (let n = Vector3_norm v
      in if feq n (Fin 0) then v
         else v\<lparr>x := fdiv (x v) n, y := fdiv (y v) n, z := fdiv (z v) n\<rparr>)"

text \<open>
  The cast to \<open>std::string\<close> and \<open>operator<<\<close> both build
  \<open>"(" + std::to_string(x) + ", " + std::to_string(y) + ", " + std::to_string(z) + ")"\<close>.
  \<open>std::to_string(double)\<close> belongs to the C++ standard library, which defines it
  (C++11 to C++23, [string.conversions]) as the output of \<open>sprintf\<close> with the format
  \<open>"%f"\<close>. For a finite number that is a minus sign when the sign bit is set (also for the
  negative zero), the decimal digits of the integer part, a point, and exactly six digits
  of fraction, the value being rounded to six decimals (to nearest, a tie to the even
  digit). An infinity is printed as \<open>inf\<close> or \<open>-inf\<close> and a NaN as \<open>nan\<close> (C leaves their
  spelling to the implementation, and a NaN may carry a sign).
\<close>

definition digit_char :: "nat \<Rightarrow> char" where
  "digit_char k = ''0123456789'' ! (k mod 10)"

fun decimal :: "nat \<Rightarrow> string" where
  "decimal k = (if k < 10 then [digit_char k] else decimal (k div 10) @ [digit_char k])"

declare decimal.simps [simp del]

text \<open>The last \<open>w\<close> decimal digits of \<open>k\<close>, with leading zeros.\<close>

primrec pad_digits :: "nat \<Rightarrow> nat \<Rightarrow> string" where
  "pad_digits 0 k = []"
| "pad_digits (Suc w) k = pad_digits w (k div 10) @ [digit_char k]"

definition fixed6 :: "real \<Rightarrow> string" where
  "fixed6 a =
     (let m = round_half_even (a * 10 ^ 6)
      in decimal (m div 10 ^ 6) @ ''.'' @ pad_digits 6 (m mod 10 ^ 6))"

fun to_string :: "double \<Rightarrow> string" where
  "to_string (Fin r) = (if r < 0 then ''-'' else []) @ fixed6 \<bar>r\<bar>"
| "to_string NegZero = ''-'' @ fixed6 0"
| "to_string PInf = ''inf''"
| "to_string NInf = ''-inf''"
| "to_string NaN = ''nan''"

text \<open>
  What a string of decimal digits denotes; used to state what \<open>to_string\<close> prints.
\<close>

definition digit_val :: "char \<Rightarrow> nat" where
  "digit_val c = of_char c - 48"

definition read_decimal :: "string \<Rightarrow> nat" where
  "read_decimal s = foldl (\<lambda>acc c. 10 * acc + digit_val c) 0 s"

definition toString :: "Vector3 \<Rightarrow> string" where
  "toString v =
     ''('' @ to_string (x v) @ '', '' @ to_string (y v) @ '', '' @ to_string (z v) @ '')''"

text \<open>Vectors whose components are doubles, and vectors of finite numbers.\<close>

definition Vector3_double :: "Vector3 \<Rightarrow> bool" where
  "Vector3_double v = (is_double (x v) \<and> is_double (y v) \<and> is_double (z v))"

definition Vector3_finite :: "Vector3 \<Rightarrow> bool" where
  "Vector3_finite v = (is_finite (x v) \<and> is_finite (y v) \<and> is_finite (z v))"

section \<open>Line\<close>

record Line =
  d :: Vector3
  p :: Vector3

text \<open>The constructor \<open>Line(d, p)\<close> and the factory \<open>Line::getLine(p1, p2)\<close>.\<close>

definition mk_Line :: "Vector3 \<Rightarrow> Vector3 \<Rightarrow> Line" where
  "mk_Line dir pt = \<lparr>d = dir, p = pt\<rparr>"

definition getLine :: "Vector3 \<Rightarrow> Vector3 \<Rightarrow> Line" where
  "getLine p1 p2 = mk_Line (subtract p2 p1) p1"

section \<open>Plane\<close>

record Plane =
  d1 :: Vector3
  d2 :: Vector3
  p :: Vector3

text \<open>The constructors \<open>Plane()\<close> and \<open>Plane(d1, d2, p)\<close>.\<close>

definition Plane_default :: Plane where
  "Plane_default =
     \<lparr>d1 = mk_Vector3 (Fin 1) (Fin 0) (Fin 0),
      d2 = mk_Vector3 (Fin 0) (Fin 1) (Fin 0),
      p = mk_Vector3 (Fin 0) (Fin 0) (Fin 0)\<rparr>"

definition mk_Plane :: "Vector3 \<Rightarrow> Vector3 \<Rightarrow> Vector3 \<Rightarrow> Plane" where
  "mk_Plane v1 v2 pt = \<lparr>d1 = v1, d2 = v2, p = pt\<rparr>"

text \<open>
  \<open>Plane::getTangentPlane(line)\<close>: the seed \<open>a\<close> is \<open>(0, 1, 0)\<close>; it is replaced by
  \<open>(0, 0, 1)\<close> when \<open>line.d.z == 0\<close>, and otherwise its \<open>z\<close> is set to
  \<open>-line.d.y / line.d.z\<close>.
\<close>

definition getTangentPlane :: "Line \<Rightarrow> Plane" where
  "getTangentPlane line =
     (let a = mk_Vector3 (Fin 0) (Fin 1) (Fin 0);
          a = (if feq (z (d line)) (Fin 0) then mk_Vector3 (Fin 0) (Fin 0) (Fin 1)
               else a\<lparr>z := fdiv (fneg (y (d line))) (z (d line))\<rparr>);
          b = cross a (d line)
      in mk_Plane a b (Line.p line))"

text \<open>\<open>Plane::norm()\<close>\<close>

definition Plane_norm :: "Plane \<Rightarrow> Vector3" where
  "Plane_norm pl = cross (d1 pl) (d2 pl)"

text \<open>
  \<open>Plane::lineIntersection(line)\<close>, with its two local variables \<open>numerator\<close> and
  \<open>denominator\<close> as functions of their own; C++ subtracts and adds from left to right.
\<close>

definition numerator :: "Plane \<Rightarrow> Line \<Rightarrow> double" where
  "numerator pl line =
     (let n = Plane_norm pl
      in fsub (fsub (fsub (dot n (Line.p line)) (fmul (x n) (x (Line.p line))))
                    (fmul (y n) (y (Line.p line))))
              (fmul (z n) (z (Line.p line))))"

definition denominator :: "Plane \<Rightarrow> Line \<Rightarrow> double" where
  "denominator pl line =
     (let n = Plane_norm pl
      in fadd (fadd (fmul (x n) (x (d line))) (fmul (y n) (y (d line))))
              (fmul (z n) (z (d line))))"

definition lineIntersection :: "Plane \<Rightarrow> Line \<Rightarrow> Vector3" where
  "lineIntersection pl line =
     (if feq (denominator pl line) (Fin 0) then Vector3_default
      else
        let t = fdiv (numerator pl line) (denominator pl line)
        in add (Line.p line) (scale t (d line)))"

section \<open>Tri\<close>

text \<open>The array \<open>Vector3 p[3]\<close> is the three fields \<open>p0\<close>, \<open>p1\<close>, \<open>p2\<close>.\<close>

record Tri =
  p0 :: Vector3
  p1 :: Vector3
  p2 :: Vector3

definition mk_Tri :: "Vector3 \<Rightarrow> Vector3 \<Rightarrow> Vector3 \<Rightarrow> Tri" where
  "mk_Tri a b c = \<lparr>p0 = a, p1 = b, p2 = c\<rparr>"

text \<open>\<open>Tri::norm()\<close>\<close>

definition Tri_norm :: "Tri \<Rightarrow> Vector3" where
  "Tri_norm t =
     (let e1 = subtract (p1 t) (p0 t);
          e2 = subtract (p2 t) (p0 t);
          nrm = cross e1 e2
      in Vector3_normalize nrm)"

section \<open>Object\<close>

record Object =
  position :: Vector3
  rotation :: Vector3
  tris :: "Tri list"

text \<open>
  Neither constructor mentions \<open>position\<close> or \<open>rotation\<close>: C++ default-initialises these
  members with \<open>Vector3()\<close>, and \<open>tris\<close> with the empty vector. \<open>Object(tris)\<close> then
  assigns its argument to \<open>tris\<close>.
\<close>

definition Object_default :: Object where
  "Object_default = \<lparr>position = Vector3_default, rotation = Vector3_default, tris = []\<rparr>"

definition mk_Object :: "Tri list \<Rightarrow> Object" where
  "mk_Object ts = Object_default\<lparr>tris := ts\<rparr>"

section \<open>Error bounds\<close>

text \<open>
  Half the spacing of the subnormal doubles: the largest error of a rounding that
  underflows.
\<close>

definition eta :: real where
  "eta = 2 powi (- 1075)"

section \<open>Inputs of the examples\<close>

text \<open>The plane spanned by (0, 1, -1) and (-1, 0, 0), and the line through (0, 2^53, 1) of direction
    (0, 0, 1).\<close>

abbreviation skew_plane :: Plane where
  "skew_plane \<equiv> mk_Plane (mk_Vector3 (Fin 0) (Fin 1) (Fin (- 1))) (mk_Vector3 (Fin (- 1)) (Fin 0)
      (Fin 0)) (mk_Vector3 (Fin 0) (Fin 0) (Fin 0))"

abbreviation tall_line :: Line where
  "tall_line \<equiv> mk_Line (mk_Vector3 (Fin 0) (Fin 0) (Fin 1)) (mk_Vector3 (Fin 0) (Fin (2 ^ 53)) (Fin
      1))"

text \<open>The default plane moved to the anchor (1, 2, 3), and the line through (0, 0, 5) of direction
    (0, 0, -1).\<close>

abbreviation moved_plane :: Plane where
  "moved_plane \<equiv> Plane_default\<lparr>p := mk_Vector3 (Fin 1) (Fin 2) (Fin 3)\<rparr>"

abbreviation down_line :: Line where
  "down_line \<equiv> mk_Line (mk_Vector3 (Fin 0) (Fin 0) (Fin (- 1))) (mk_Vector3 (Fin 0) (Fin 0) (Fin
      5))"

text \<open>Lines of direction (1, 2, 0), (3, 1, 10) and (0, 2, 3).\<close>

abbreviation flat_line :: Line where
  "flat_line \<equiv> mk_Line (mk_Vector3 (Fin 1) (Fin 2) (Fin 0)) (mk_Vector3 (Fin 7) (Fin 8) (Fin 9))"

abbreviation line_3_1_10 :: Line where
  "line_3_1_10 \<equiv> mk_Line (mk_Vector3 (Fin 3) (Fin 1) (Fin 10)) (mk_Vector3 (Fin 0) (Fin 0) (Fin 0))"

abbreviation line_0_2_3 :: Line where
  "line_0_2_3 \<equiv> mk_Line (mk_Vector3 (Fin 0) (Fin 2) (Fin 3)) (mk_Vector3 (Fin 0) (Fin 0) (Fin 0))"

text \<open>Vectors whose first component is the double just below epsilon, a small negative number,
    epsilon, and half of epsilon.\<close>

abbreviation below_epsilon :: Vector3 where
  "below_epsilon \<equiv> mk_Vector3 (Fin (5764607523034234 / 2 ^ 60)) (Fin 0) (Fin 0)"

abbreviation small_negative :: Vector3 where
  "small_negative \<equiv> mk_Vector3 (Fin (- (3 / 2 ^ 62))) (Fin 0) (Fin 0)"

abbreviation at_epsilon :: Vector3 where
  "at_epsilon \<equiv> mk_Vector3 (Fin (5764607523034235 / 2 ^ 60)) (Fin 0) (Fin 0)"

abbreviation half_epsilon :: Vector3 where
  "half_epsilon \<equiv> mk_Vector3 (Fin (5764607523034235 / 2 ^ 61)) (Fin (- (5764607523034235 / 2 ^ 61)))
      (Fin (5764607523034235 / 2 ^ 61))"

text \<open>The vectors (2^-538, 0, 0), (3, 4, 0), (3, -4, -0.0) and (2^512, 0, 0).\<close>

abbreviation tiny_vector :: Vector3 where
  "tiny_vector \<equiv> mk_Vector3 (Fin (1 / 2 ^ 538)) (Fin 0) (Fin 0)"

abbreviation vector_3_4_0 :: Vector3 where
  "vector_3_4_0 \<equiv> mk_Vector3 (Fin 3) (Fin 4) (Fin 0)"

abbreviation vector_3_m4_m0 :: Vector3 where
  "vector_3_m4_m0 \<equiv> mk_Vector3 (Fin 3) (Fin (- 4)) NegZero"

abbreviation big_vector :: Vector3 where
  "big_vector \<equiv> mk_Vector3 (Fin (2 ^ 512)) (Fin 0) (Fin 0)"

text \<open>A triangle of three collinear vertices, and one whose first two vertices are the same.\<close>

abbreviation collinear_tri :: Tri where
  "collinear_tri \<equiv> mk_Tri (mk_Vector3 (Fin (2 ^ 52 + 1)) (Fin (2 ^ 52 + 3)) (Fin 0)) (mk_Vector3
      (Fin (2 ^ 53 + 2)) (Fin (2 ^ 53 + 6)) (Fin 0)) (mk_Vector3 (Fin (2 ^ 54 + 4)) (Fin (2 ^ 54 +
      12)) (Fin 0))"

abbreviation degenerate_tri :: Tri where
  "degenerate_tri \<equiv> mk_Tri (mk_Vector3 (Fin 1) (Fin 2) (Fin 3)) (mk_Vector3 (Fin 1) (Fin 2) (Fin 3))
      (mk_Vector3 (Fin 4) (Fin 5) (Fin 6))"

section \<open>Evaluating the rounding\<close>

lemma powr_eq_powi: "0 < b \<Longrightarrow> b powr real_of_int e = b powi e"
  by (simp add: powr_real_of_int power_int_def power_inverse)

lemma floor_log2_eq:
  assumes "2 powi e \<le> a" "a < 2 powi (e + 1)"
  shows "\<lfloor>log 2 a\<rfloor> = e"
proof -
  have pos: "0 < a" using assms(1) zero_less_power_int [of "2::real" e] by linarith
  have "2 powr real_of_int e \<le> a \<and> a < 2 powr real_of_int (e + 1)"
    using assms by (simp only: powr_eq_powi zero_less_numeral)
  then show ?thesis
    using floor_log_eq_powr_iff [of a 2 e] pos by simp
qed

lemma nearest_eval:
  assumes "2 powi e \<le> a" "a < 2 powi (e + 1)"
  shows "nearest a =
           real (round_half_even (a / 2 powi (max e (- 1022) - 52))) * 2 powi (max e (- 1022) - 52)"
  unfolding nearest_def quantum_def floor_log2_eq [OF assms] ..

lemma round_to_double_eval:
  assumes "r \<noteq> 0" "2 powi e \<le> \<bar>r\<bar>" "\<bar>r\<bar> < 2 powi (e + 1)"
  shows "round_to_double r =
           (let q = 2 powi (max e (- 1022) - 52);
                v = real (round_half_even (\<bar>r\<bar> / q)) * q
            in if huge \<le> v then (if r < 0 then NInf else PInf)
               else if v = 0 then (if r < 0 then NegZero else Fin 0)
               else Fin (if r < 0 then - v else v))"
  unfolding round_to_double_def Let_def nearest_eval [OF assms(2,3)]
  by (simp only: assms(1) if_False)

lemma nearest_nonneg [simp]: "0 \<le> nearest a"
  by (simp add: nearest_def quantum_def)

lemma round_to_double_nonzero:
  assumes "r \<noteq> 0"
  shows "round_to_double r =
           (if huge \<le> nearest \<bar>r\<bar> then (if r < 0 then NInf else PInf)
            else if nearest \<bar>r\<bar> = 0 then (if r < 0 then NegZero else Fin 0)
            else Fin (if r < 0 then - nearest \<bar>r\<bar> else nearest \<bar>r\<bar>))"
  using assms by (simp add: round_to_double_def Let_def)

lemma round_to_double_minus:
  assumes "r \<noteq> 0"
  shows "round_to_double (- r) = fneg (round_to_double r)"
  using assms by (cases "r < 0") (auto simp add: round_to_double_nonzero)

lemma round_to_double_cases:
  assumes "r \<noteq> 0"
  obtains (inf) "round_to_double r = inf_of (r < 0)"
        | (zero) "round_to_double r = zero_of (r < 0)"
        | (fin) v where "0 < v" "v < huge" "round_to_double r = Fin (if r < 0 then - v else v)"
proof (cases "huge \<le> nearest \<bar>r\<bar>")
  case True
  then show ?thesis using assms inf by (simp add: round_to_double_nonzero inf_of_def)
next
  case False
  note nh = this
  show ?thesis
  proof (cases "nearest \<bar>r\<bar> = 0")
    case True
    then show ?thesis using assms nh zero by (simp add: round_to_double_nonzero zero_of_def)
  next
    case False
    have "0 \<le> nearest \<bar>r\<bar>" by simp
    with False have "0 < nearest \<bar>r\<bar>" by linarith
    moreover from nh have "nearest \<bar>r\<bar> < huge" by simp
    moreover have "round_to_double r = Fin (if r < 0 then - nearest \<bar>r\<bar> else nearest \<bar>r\<bar>)"
      using assms nh False by (simp add: round_to_double_nonzero)
    ultimately show ?thesis by (rule fin)
  qed
qed

section \<open>The operations on finite numbers\<close>

lemma is_finite_cases:
  assumes "is_finite a"
  obtains (Fin) r where "a = Fin r" | (NegZero) "a = NegZero"
  using assms by (cases a) simp_all

lemma is_zero_iff: "is_zero a \<longleftrightarrow> is_finite a \<and> valof a = 0"
  by (cases a) (simp_all add: is_zero_def)

lemma feq_zero_iff [simp]: "feq a (Fin 0) \<longleftrightarrow> is_zero a"
  by (cases a) (simp_all add: feq_def is_zero_def is_inf_def)

lemma is_zero_zero_of [simp]: "is_zero (zero_of s)"
  by (simp add: is_zero_def zero_of_def)

lemma is_finite_zero_of [simp]: "is_finite (zero_of s)"
  by (simp add: zero_of_def)

lemma valof_zero_of [simp]: "valof (zero_of s) = 0"
  by (simp add: zero_of_def)

lemma is_zero_imp_finite: "is_zero a \<Longrightarrow> is_finite a"
  by (simp add: is_zero_iff)

lemma fmul_finite:
  assumes "is_finite a" "is_finite b"
  shows "fmul a b =
           (if valof a * valof b = 0 then zero_of (sign_bit a \<noteq> sign_bit b)
            else round_to_double (valof a * valof b))"
  using assms
  by (cases a; cases b)
     (auto simp add: fmul_def is_inf_def is_zero_def Let_def)

lemma fadd_finite:
  assumes "is_finite a" "is_finite b"
  shows "fadd a b =
           (if valof a + valof b = 0
            then (if a = NegZero \<and> b = NegZero then NegZero else Fin 0)
            else round_to_double (valof a + valof b))"
  using assms
  by (cases a; cases b)
     (auto simp add: fadd_def is_inf_def Let_def)

lemma fdiv_finite:
  assumes "is_finite a" "is_finite b" "\<not> is_zero b"
  shows "fdiv a b =
           (if valof a = 0 then zero_of (sign_bit a \<noteq> sign_bit b)
            else round_to_double (valof a / valof b))"
  using assms
  by (cases a; cases b)
     (auto simp add: fdiv_def is_inf_def is_zero_def Let_def)

lemma is_finite_fneg [simp]: "is_finite (fneg a) = is_finite a"
  by (cases a) simp_all

lemma valof_fneg [simp]: "valof (fneg a) = - valof a"
  by (cases a) simp_all

lemma is_zero_fneg [simp]: "is_zero (fneg a) = is_zero a"
  by (simp add: is_zero_iff)

lemma fmul_zero_left: "is_zero a \<Longrightarrow> is_finite b \<Longrightarrow> is_zero (fmul a b)"
  by (simp add: fmul_finite is_zero_iff)

lemma fmul_zero_right: "is_finite a \<Longrightarrow> is_zero b \<Longrightarrow> is_zero (fmul a b)"
  by (simp add: fmul_finite is_zero_iff)

lemma fadd_zero_zero: "is_zero a \<Longrightarrow> is_zero b \<Longrightarrow> is_zero (fadd a b)"
  by (auto simp add: fadd_finite is_zero_iff)

lemma fsub_zero_zero: "is_zero a \<Longrightarrow> is_zero b \<Longrightarrow> is_zero (fsub a b)"
  by (simp add: fsub_def fadd_zero_zero)

lemma fdiv_zero_left:
  "is_zero a \<Longrightarrow> b \<noteq> NaN \<Longrightarrow> \<not> is_zero b \<Longrightarrow> is_zero (fdiv a b)"
  by (cases b) (auto simp add: fdiv_def is_zero_def is_inf_def Let_def zero_of_def)

lemma fadd_zero_right:
  assumes "is_double a" "a \<noteq> NaN" "is_zero b"
  shows "feq (fadd a b) a"
proof (cases "is_finite a")
  case True
  show ?thesis
  proof (cases "valof a = 0")
    case True
    with \<open>is_finite a\<close> assms(3) show ?thesis
      by (auto simp add: fadd_finite is_zero_iff feq_def is_inf_def)
  next
    case False
    with \<open>is_finite a\<close> obtain r where r: "a = Fin r" "r \<noteq> 0"
      by (cases a rule: is_finite_cases) auto
    with assms(1) have "round_to_double r = Fin r" by simp
    with r assms(3) show ?thesis
      by (simp add: fadd_finite is_zero_iff feq_def is_inf_def)
  qed
next
  case False
  with assms(2) have "a = PInf \<or> a = NInf" by (cases a) simp_all
  with assms(3) show ?thesis
    by (auto simp add: fadd_def is_inf_def is_zero_def feq_def)
qed

lemma mk_Vector3_sel [simp]:
  "x (mk_Vector3 a b c) = a" "y (mk_Vector3 a b c) = b" "z (mk_Vector3 a b c) = c"
  by (simp_all add: mk_Vector3_def)

section \<open>Lemmas about Vector3\<close>

subsection \<open>Approximate equality\<close>

lemma epsilon_eq: "epsilon = Fin (5764607523034235 / 2 ^ 60)"
  unfolding epsilon_def
  by (subst round_to_double_eval [where e = "- 8"])
     (simp_all add: round_half_even_def Let_def huge_def)

lemma within_epsilon:
  "flt a epsilon \<and> flt (fneg epsilon) a \<longleftrightarrow> is_finite a \<and> \<bar>valof a\<bar> < valof epsilon"
  by (cases a) (auto simp add: epsilon_eq flt_def)

lemma equals_iff:
  "equals a b \<longleftrightarrow>
     (is_finite (x (subtract a b)) \<and> \<bar>valof (x (subtract a b))\<bar> < valof epsilon) \<and>
     (is_finite (y (subtract a b)) \<and> \<bar>valof (y (subtract a b))\<bar> < valof epsilon) \<and>
     (is_finite (z (subtract a b)) \<and> \<bar>valof (z (subtract a b))\<bar> < valof epsilon)"
  unfolding equals_def Let_def within_epsilon ..

lemma subtract_sel:
  "x (subtract a b) = fadd (x a) (fmul (Fin (- 1)) (x b))"
  "y (subtract a b) = fadd (y a) (fmul (Fin (- 1)) (y b))"
  "z (subtract a b) = fadd (z a) (fmul (Fin (- 1)) (z b))"
  by (simp_all add: subtract_def add_def scale_def)

subsection \<open>Arithmetic on 0 and 1\<close>

lemma round_to_double_zero [simp]: "round_to_double 0 = Fin 0"
  by (simp add: round_to_double_def)

lemma round_to_double_one: "round_to_double 1 = Fin 1"
  by (subst round_to_double_eval [where e = 0])
     (simp_all add: round_half_even_def Let_def huge_def)

lemma fmul_one_one: "fmul (Fin 1) (Fin 1) = Fin 1"
  by (simp add: fmul_finite round_to_double_one)

lemma fsub_one_zero: "fsub (Fin 1) (Fin 0) = Fin 1"
  by (simp add: fsub_def fadd_finite round_to_double_one)

lemma fmul_zero_zero: "fmul (Fin 0) (Fin 0) = Fin 0"
  by (simp add: fmul_finite zero_of_def)

lemma fmul_zero_one: "fmul (Fin 0) (Fin 1) = Fin 0" "fmul (Fin 1) (Fin 0) = Fin 0"
  by (simp_all add: fmul_finite zero_of_def)

lemma fsub_zero_zero_pos: "fsub (Fin 0) (Fin 0) = Fin 0"
  by (simp add: fsub_def fadd_finite)

lemma fadd_zero_zero_pos: "fadd (Fin 0) (Fin 0) = Fin 0"
  by (simp add: fadd_finite)

subsection \<open>Norm and normalisation\<close>

lemma Vector3_normalize_zero:
  "feq (Vector3_norm v) (Fin 0) \<Longrightarrow> Vector3_normalize v = v"
  by (simp add: Vector3_normalize_def)

lemma Vector3_normalize_nonzero:
  "\<not> feq (Vector3_norm v) (Fin 0) \<Longrightarrow>
   Vector3_normalize v =
     mk_Vector3 (fdiv (x v) (Vector3_norm v)) (fdiv (y v) (Vector3_norm v))
                (fdiv (z v) (Vector3_norm v))"
  by (simp add: Vector3_normalize_def Let_def mk_Vector3_def)

lemma Vector3_norm_zeros:
  assumes "is_zero (x v)" "is_zero (y v)" "is_zero (z v)"
  shows "Vector3_norm v = Fin 0"
proof -
  have sq: "fmul a a = Fin 0" if "is_zero a" for a
    using that by (auto simp add: is_zero_def fmul_finite zero_of_def)
  show ?thesis
    by (simp add: Vector3_norm_def sq assms fadd_zero_zero_pos)
qed

lemma fdiv_by_zero_changes:
  assumes "is_zero n" "is_finite c"
  shows "fdiv c n \<noteq> c"
  using assms by (cases c; cases n) (auto simp add: fdiv_def is_zero_def is_inf_def inf_of_def
      Let_def)

section \<open>Lemmas about Plane\<close>

subsection \<open>Intersection with a line\<close>

lemma denominator_eq_dot: "denominator pl line = dot (Plane_norm pl) (d line)"
  by (simp add: denominator_def dot_def Let_def)

lemma lineIntersection_parallel:
  "feq (dot (Plane_norm pl) (d line)) (Fin 0) \<Longrightarrow> lineIntersection pl line = Vector3_default"
  by (simp add: lineIntersection_def denominator_eq_dot)

lemma Plane_norm_default: "Plane_norm Plane_default = mk_Vector3 (Fin 0) (Fin 0) (Fin 1)"
  by (simp add: Plane_norm_def Plane_default_def cross_def fmul_zero_zero fmul_zero_one
        fmul_one_one fsub_zero_zero_pos fsub_one_zero)

lemma lineIntersection_p_update: "lineIntersection (pl\<lparr>p := q\<rparr>) line = lineIntersection pl line"
  by (simp add: lineIntersection_def numerator_def denominator_def Plane_norm_def)

lemma lineIntersection_nonparallel:
  "\<not> feq (denominator pl line) (Fin 0) \<Longrightarrow>
   lineIntersection pl line =
     add (Line.p line) (scale (fdiv (numerator pl line) (denominator pl line)) (d line))"
  by (simp add: lineIntersection_def Let_def)

lemma add_scale_zero:
  assumes t: "is_zero t" and dd: "Vector3_finite dd"
    and pd: "Vector3_double pt" and pn: "x pt \<noteq> NaN" "y pt \<noteq> NaN" "z pt \<noteq> NaN"
  shows "feq (x (add pt (scale t dd))) (x pt)"
        "feq (y (add pt (scale t dd))) (y pt)"
        "feq (z (add pt (scale t dd))) (z pt)"
  using assms
  by (simp_all add: add_def scale_def Vector3_finite_def Vector3_double_def
        fadd_zero_right fmul_zero_left)

subsection \<open>Tangent plane\<close>

lemma getTangentPlane_sel:
  "Plane.p (getTangentPlane line) = Line.p line"
  "d2 (getTangentPlane line) = cross (d1 (getTangentPlane line)) (d line)"
  "feq (z (d line)) (Fin 0) \<Longrightarrow>
     d1 (getTangentPlane line) = mk_Vector3 (Fin 0) (Fin 0) (Fin 1)"
  "\<not> feq (z (d line)) (Fin 0) \<Longrightarrow>
     d1 (getTangentPlane line) =
       mk_Vector3 (Fin 0) (Fin 1) (fdiv (fneg (y (d line))) (z (d line)))"
  by (simp_all add: getTangentPlane_def Let_def mk_Plane_def mk_Vector3_def)

lemma fmul_one_left:
  assumes "is_finite a" "is_double a"
  shows "fmul (Fin 1) a = a"
  using assms by (cases a) (auto simp add: fmul_finite zero_of_def)

lemma fmul_minus_one_left:
  assumes "is_finite a" "is_double a"
  shows "fmul (Fin (- 1)) a = fneg a"
  using assms by (cases a) (auto simp add: fmul_finite zero_of_def round_to_double_minus)

lemma fsub_zero_left:
  assumes "is_zero a" "is_finite b" "is_double b"
  shows "is_finite (fsub a b) \<and> valof (fsub a b) = - valof b \<and> is_double (fsub a b)"
  using assms
  by (cases b) (auto simp add: fsub_def fadd_finite is_zero_iff round_to_double_minus)

lemma fsub_zero_right:
  assumes "is_finite a" "is_double a" "is_zero b"
  shows "is_finite (fsub a b) \<and> valof (fsub a b) = valof a \<and> is_double (fsub a b)"
  using assms
  by (cases a) (auto simp add: fsub_def fadd_finite is_zero_iff)

lemma feq_finite: "is_finite a \<Longrightarrow> is_finite b \<Longrightarrow> feq a b \<longleftrightarrow> valof a = valof b"
  by (cases a; cases b) (simp_all add: feq_def is_inf_def)

lemma fadd_fneg_self: "is_finite a \<Longrightarrow> is_zero (fadd (fneg a) a)"
  by (cases a) (auto simp add: fadd_finite is_zero_def)

lemma cancel_products:
  assumes fin: "is_finite u" "is_finite w" "is_finite dx" "is_finite dy"
    and vals: "valof u = - valof dy" "valof w = valof dx"
    and prod: "is_finite (fmul dx dy)"
  shows "is_zero (fadd (fmul u dx) (fmul w dy))"
proof (cases "valof dx * valof dy = 0")
  case True
  then have "is_zero (fmul u dx)" "is_zero (fmul w dy)"
    using fin vals by (auto simp add: fmul_finite)
  then show ?thesis by (rule fadd_zero_zero)
next
  case False
  then have P: "fmul dx dy = round_to_double (valof dx * valof dy)"
    using fin by (simp add: fmul_finite)
  have "valof u * valof dx = - (valof dx * valof dy)"
    using vals by simp
  then have "fmul u dx = round_to_double (- (valof dx * valof dy))"
    using fin False by (simp add: fmul_finite)
  also have "\<dots> = fneg (fmul dx dy)"
    using False by (simp add: P round_to_double_minus)
  finally have 1: "fmul u dx = fneg (fmul dx dy)" .
  have 2: "fmul w dy = fmul dx dy"
    using fin vals False by (simp add: fmul_finite)
  show ?thesis
    unfolding 1 2 using prod by (rule fadd_fneg_self)
qed

lemma tangent_flat:
  assumes z0: "is_zero (z dd)" and fin: "Vector3_finite dd" and dbl: "Vector3_double dd"
  defines "a \<equiv> mk_Vector3 (Fin 0) (Fin 0) (Fin 1)"
  shows "is_finite (x (cross a dd)) \<and> valof (x (cross a dd)) = - valof (y dd)
           \<and> is_double (x (cross a dd))"
    and "is_finite (y (cross a dd)) \<and> valof (y (cross a dd)) = valof (x dd)
           \<and> is_double (y (cross a dd))"
    and "is_zero (z (cross a dd))"
proof -
  from fin have f: "is_finite (x dd)" "is_finite (y dd)" "is_finite (z dd)"
    by (simp_all add: Vector3_finite_def)
  from dbl have b: "is_double (x dd)" "is_double (y dd)" "is_double (z dd)"
    by (simp_all add: Vector3_double_def)
  show "is_finite (x (cross a dd)) \<and> valof (x (cross a dd)) = - valof (y dd)
           \<and> is_double (x (cross a dd))"
    unfolding a_def cross_def mk_Vector3_sel
    by (simp only: fmul_one_left f b) (intro fsub_zero_left fmul_zero_left f b, simp add:
        is_zero_def)
  show "is_finite (y (cross a dd)) \<and> valof (y (cross a dd)) = valof (x dd)
           \<and> is_double (y (cross a dd))"
    unfolding a_def cross_def mk_Vector3_sel
    by (simp only: fmul_one_left f b) (intro fsub_zero_right fmul_zero_left f b, simp add:
        is_zero_def)
  show "is_zero (z (cross a dd))"
    unfolding a_def cross_def mk_Vector3_sel
    by (intro fsub_zero_zero fmul_zero_left f) (simp_all add: is_zero_def)
qed

lemma dot_seed_flat:
  assumes z0: "is_zero (z dd)" and fin: "Vector3_finite dd"
  shows "is_zero (dot (mk_Vector3 (Fin 0) (Fin 0) (Fin 1)) dd)"
  using assms unfolding dot_def mk_Vector3_sel Vector3_finite_def
  by (intro fadd_zero_zero fmul_zero_left fmul_zero_right) (simp_all add: is_zero_def)

lemma dot_cross_flat:
  assumes z0: "is_zero (z dd)" and fin: "Vector3_finite dd" and dbl: "Vector3_double dd"
    and prod: "is_finite (fmul (x dd) (y dd))"
  shows "is_zero (dot (cross (mk_Vector3 (Fin 0) (Fin 0) (Fin 1)) dd) dd)"
proof -
  let ?b = "cross (mk_Vector3 (Fin 0) (Fin 0) (Fin 1)) dd"
  note t = tangent_flat [OF z0 fin dbl]
  from fin have f: "is_finite (x dd)" "is_finite (y dd)" "is_finite (z dd)"
    by (simp_all add: Vector3_finite_def)
  have 1: "is_zero (fadd (fmul (x ?b) (x dd)) (fmul (y ?b) (y dd)))"
    using t f prod by (intro cancel_products) simp_all
  have 2: "is_zero (fmul (z ?b) (z dd))"
    using t(3) f by (simp add: fmul_zero_left)
  show ?thesis
    unfolding dot_def using 1 2 by (rule fadd_zero_zero)
qed

subsection \<open>Rounding a number that is at least 1\<close>

lemma two_powi_floor_log_le:
  assumes "0 < a"
  shows "2 powi \<lfloor>log 2 a\<rfloor> \<le> a"
proof -
  have "2 powr real_of_int \<lfloor>log 2 a\<rfloor> \<le> a"
    using floor_log_eq_powr_iff [of a 2 "\<lfloor>log 2 a\<rfloor>"] assms by simp
  then show ?thesis by (simp only: powr_eq_powi zero_less_numeral)
qed

lemma round_half_even_ge_floor: "nat \<lfloor>t\<rfloor> \<le> round_half_even t"
  by (simp add: round_half_even_def Let_def)

lemma two_powi_split: "(2::real) powi e = 2 ^ 52 * 2 powi (e - 52)"
proof -
  have "(2::real) powi e = 2 powi (52 + (e - 52))" by simp
  also have "\<dots> = 2 powi 52 * 2 powi (e - 52)" by (rule power_int_add) simp
  finally show ?thesis by simp
qed

lemma nearest_ge_one:
  assumes "1 \<le> a"
  shows "1 \<le> nearest a"
proof -
  define e where "e = \<lfloor>log 2 a\<rfloor>"
  define q where "q = (2::real) powi (e - 52)"
  have e0: "0 \<le> e" using assms by (simp add: e_def)
  have qpos: "0 < q" by (simp add: q_def)
  have quant: "quantum a = q"
    using e0 by (simp add: quantum_def e_def [symmetric] q_def max_def)
  have le: "2 powi e \<le> a" unfolding e_def using assms by (intro two_powi_floor_log_le) simp
  have split: "(2::real) powi e = 2 ^ 52 * q"
    unfolding q_def by (rule two_powi_split)
  have "2 ^ 52 \<le> a / q"
    using le qpos by (simp add: split pos_le_divide_eq)
  then have "(2::int) ^ 52 \<le> \<lfloor>a / q\<rfloor>" by (simp add: le_floor_iff)
  then have "(2::nat) ^ 52 \<le> nat \<lfloor>a / q\<rfloor>" by (simp add: le_nat_iff)
  then have "(2::nat) ^ 52 \<le> round_half_even (a / q)"
    using round_half_even_ge_floor [of "a / q"] by linarith
  then have "real ((2::nat) ^ 52) \<le> real (round_half_even (a / q))"
    by (simp only: of_nat_le_iff)
  then have "(2::real) ^ 52 \<le> real (round_half_even (a / q))" by simp
  then have big: "2 ^ 52 * q \<le> real (round_half_even (a / q)) * q"
    using qpos by (intro mult_right_mono) simp_all
  have "1 \<le> (2::real) powi e" using e0 by (simp add: one_le_power_int)
  then have "1 \<le> 2 ^ 52 * q" by (simp only: split)
  from this big have "1 \<le> real (round_half_even (a / q)) * q" by (rule order_trans)
  then show ?thesis by (simp only: nearest_def quant)
qed

lemma round_to_double_ge_one:
  assumes "1 \<le> r"
  shows "round_to_double r = PInf \<or> (\<exists>v. round_to_double r = Fin v \<and> 1 \<le> v)"
proof -
  have "1 \<le> nearest \<bar>r\<bar>" using assms by (intro nearest_ge_one) simp
  then show ?thesis using assms by (simp add: round_to_double_nonzero)
qed

lemma round_to_double_pos:
  assumes "0 < r"
  shows "round_to_double r = PInf \<or> (\<exists>v. round_to_double r = Fin v \<and> 0 \<le> v)"
  using assms by (simp add: round_to_double_nonzero)

lemma round_to_double_not_NaN [simp]: "round_to_double r \<noteq> NaN"
  by (simp add: round_to_double_def Let_def)

subsection \<open>The normal of the tangent plane\<close>

lemma fadd_zero_one: "fadd (Fin 0) (Fin 1) = Fin 1"
  by (simp add: fadd_finite round_to_double_one)

lemma dot_seed_flat_self:
  "dot (mk_Vector3 (Fin 0) (Fin 0) (Fin 1)) (mk_Vector3 (Fin 0) (Fin 0) (Fin 1)) = Fin 1"
  by (simp add: dot_def fmul_zero_zero fmul_one_one fadd_zero_zero_pos fadd_zero_one)

lemma is_double_zero: "is_zero a \<Longrightarrow> is_double a"
  by (auto simp add: is_zero_def)

lemma normal_flat:
  assumes z0: "is_zero (z dd)" and fin: "Vector3_finite dd" and dbl: "Vector3_double dd"
  defines "a \<equiv> mk_Vector3 (Fin 0) (Fin 0) (Fin 1)"
  shows "feq (x (cross a (cross a dd))) (x (scale (Fin (- 1)) dd))"
    and "feq (y (cross a (cross a dd))) (y (scale (Fin (- 1)) dd))"
    and "feq (z (cross a (cross a dd))) (z (scale (Fin (- 1)) dd))"
proof -
  let ?b = "cross a dd"
  note t = tangent_flat [OF z0 fin dbl, folded a_def]
  have bf: "Vector3_finite ?b"
    using t by (simp add: Vector3_finite_def is_zero_imp_finite)
  have bd: "Vector3_double ?b"
    using t by (simp add: Vector3_double_def is_double_zero)
  note u = tangent_flat [OF t(3) bf bd, folded a_def]
  from fin have f: "is_finite (x dd)" "is_finite (y dd)" "is_finite (z dd)"
    by (simp_all add: Vector3_finite_def)
  from dbl have b: "is_double (x dd)" "is_double (y dd)" "is_double (z dd)"
    by (simp_all add: Vector3_double_def)
  show "feq (x (cross a ?b)) (x (scale (Fin (- 1)) dd))"
    using u(1) t(2) f b by (simp add: scale_def fmul_minus_one_left feq_finite)
  show "feq (y (cross a ?b)) (y (scale (Fin (- 1)) dd))"
    using u(2) t(1) f b by (simp add: scale_def fmul_minus_one_left feq_finite)
  show "feq (z (cross a ?b)) (z (scale (Fin (- 1)) dd))"
    using u(3) z0 f b
    by (simp add: scale_def fmul_minus_one_left feq_finite is_zero_imp_finite)
       (simp add: is_zero_iff)
qed

lemma fmul_self:
  assumes "a \<noteq> NaN"
  shows "fmul a a = PInf \<or> (\<exists>w. fmul a a = Fin w \<and> 0 \<le> w)"
proof (cases "is_finite a")
  case True
  show ?thesis
  proof (cases "valof a = 0")
    case True
    with \<open>is_finite a\<close> show ?thesis by (simp add: fmul_finite zero_of_def)
  next
    case False
    then have "0 < valof a * valof a" by (simp add: zero_less_mult_iff) linarith
    from round_to_double_pos [OF this] False \<open>is_finite a\<close> show ?thesis
      by (simp add: fmul_finite)
  qed
next
  case False
  with assms have "a = PInf \<or> a = NInf" by (cases a) simp_all
  then show ?thesis by (auto simp add: fmul_def is_inf_def is_zero_def inf_of_def)
qed

lemma fadd_one_nonneg:
  assumes "q = PInf \<or> (\<exists>w. q = Fin w \<and> 0 \<le> w)"
  shows "fadd (Fin 1) q = PInf \<or> (\<exists>v. fadd (Fin 1) q = Fin v \<and> 1 \<le> v)"
  using assms
proof
  assume "q = PInf"
  then show ?thesis by (simp add: fadd_def is_inf_def)
next
  assume "\<exists>w. q = Fin w \<and> 0 \<le> w"
  then obtain w where w: "q = Fin w" "0 \<le> w" by blast
  then have "1 \<le> 1 + w" by simp
  from round_to_double_ge_one [OF this] w show ?thesis
    by (simp add: fadd_finite)
qed

lemma fdiv_not_NaN:
  assumes "is_finite a" "is_finite b" "\<not> is_zero b"
  shows "fdiv a b \<noteq> NaN"
  using assms by (simp add: fdiv_finite zero_of_def)

lemma dot_seed_ge_one:
  assumes "q \<noteq> NaN"
  shows "dot (mk_Vector3 (Fin 0) (Fin 1) q) (mk_Vector3 (Fin 0) (Fin 1) q) = PInf
         \<or> (\<exists>v. dot (mk_Vector3 (Fin 0) (Fin 1) q) (mk_Vector3 (Fin 0) (Fin 1) q) = Fin v
                 \<and> 1 \<le> v)"
  unfolding dot_def mk_Vector3_sel fmul_zero_zero fmul_one_one fadd_zero_one
  by (rule fadd_one_nonneg) (rule fmul_self [OF assms])

section \<open>Lemmas about Tri\<close>

lemma Tri_norm_eq:
  "Tri_norm t = Vector3_normalize (cross (subtract (p1 t) (p0 t)) (subtract (p2 t) (p0 t)))"
  by (simp add: Tri_norm_def Let_def)

lemma Vector3_normalize_zeros:
  assumes "is_zero (x c)" "is_zero (y c)" "is_zero (z c)"
  shows "Vector3_normalize c = c"
  by (rule Vector3_normalize_zero) (simp add: Vector3_norm_zeros [OF assms] is_zero_def)

lemma subtract_self:
  assumes "Vector3_finite v" "Vector3_double v"
  shows "is_zero (x (subtract v v))" "is_zero (y (subtract v v))" "is_zero (z (subtract v v))"
proof -
  have "is_zero (fadd a (fmul (Fin (- 1)) a))" if "is_finite a" "is_double a" for a
    using that by (cases a) (auto simp add: fmul_minus_one_left fadd_finite is_zero_def)
  then show "is_zero (x (subtract v v))" "is_zero (y (subtract v v))" "is_zero (z (subtract v v))"
    using assms by (simp_all add: subtract_sel Vector3_finite_def Vector3_double_def)
qed

lemma cross_zero_left:
  assumes "is_zero (x e)" "is_zero (y e)" "is_zero (z e)" "Vector3_finite w"
  shows "is_zero (x (cross e w))" "is_zero (y (cross e w))" "is_zero (z (cross e w))"
  using assms unfolding cross_def mk_Vector3_sel Vector3_finite_def
  by (simp_all add: fsub_zero_zero fmul_zero_left)

lemma Tri_norm_example:
  "Tri_norm (mk_Tri (mk_Vector3 (Fin 0) (Fin 0) (Fin 0)) (mk_Vector3 (Fin 1) (Fin 0) (Fin 0))
                    (mk_Vector3 (Fin 0) (Fin 1) (Fin 0)))
     = mk_Vector3 (Fin 0) (Fin 0) (Fin 1)"
proof -
  have m: "fmul (Fin (- 1)) (Fin 0) = NegZero"
    by (simp add: fmul_finite zero_of_def)
  have a0: "fadd (Fin 0) NegZero = Fin 0"
    by (simp add: fadd_finite)
  have a1: "fadd (Fin 1) NegZero = Fin 1"
    by (simp add: fadd_finite round_to_double_one)
  have e1: "subtract (mk_Vector3 (Fin 1) (Fin 0) (Fin 0)) (mk_Vector3 (Fin 0) (Fin 0) (Fin 0))
              = mk_Vector3 (Fin 1) (Fin 0) (Fin 0)"
    by (simp add: subtract_def add_def scale_def m a0 a1)
  have e2: "subtract (mk_Vector3 (Fin 0) (Fin 1) (Fin 0)) (mk_Vector3 (Fin 0) (Fin 0) (Fin 0))
              = mk_Vector3 (Fin 0) (Fin 1) (Fin 0)"
    by (simp add: subtract_def add_def scale_def m a0 a1)
  have c: "cross (mk_Vector3 (Fin 1) (Fin 0) (Fin 0)) (mk_Vector3 (Fin 0) (Fin 1) (Fin 0))
             = mk_Vector3 (Fin 0) (Fin 0) (Fin 1)"
    by (simp add: cross_def fmul_zero_zero fmul_zero_one fmul_one_one fsub_zero_zero_pos
          fsub_one_zero)
  have n: "Vector3_norm (mk_Vector3 (Fin 0) (Fin 0) (Fin 1)) = Fin 1"
    by (simp add: Vector3_norm_def fmul_zero_zero fmul_one_one fadd_zero_zero_pos fadd_zero_one
          round_to_double_one)
  have d0: "fdiv (Fin 0) (Fin 1) = Fin 0"
    by (simp add: fdiv_finite is_zero_def zero_of_def)
  have d1: "fdiv (Fin 1) (Fin 1) = Fin 1"
    by (simp add: fdiv_finite is_zero_def round_to_double_one)
  have "Vector3_normalize (mk_Vector3 (Fin 0) (Fin 0) (Fin 1)) = mk_Vector3 (Fin 0) (Fin 0) (Fin 1)"
    by (simp add: Vector3_normalize_def n is_zero_def d0 d1) (simp add: mk_Vector3_def)
  then show ?thesis
    by (simp add: Tri_norm_eq mk_Tri_def e1 e2 c)
qed

section \<open>Lemmas about the string form of a vector\<close>

lemma digit_val_digit_char: "digit_val (digit_char k) = k mod 10"
proof -
  have "k mod 10 < 10" by simp
  then have "k mod 10 \<in> {0, 1, 2, 3, 4, 5, 6, 7, 8, 9}" by simp arith
  then show ?thesis
    unfolding digit_char_def digit_val_def by (elim insertE emptyE) simp_all
qed

lemma digit_char_digit: "digit_char k \<in> set ''0123456789''"
  unfolding digit_char_def by (rule nth_mem) simp

lemma read_decimal_snoc: "read_decimal (s @ [c]) = 10 * read_decimal s + digit_val c"
  by (simp add: read_decimal_def)

lemma read_decimal_decimal: "read_decimal (decimal k) = k"
proof (induction k rule: decimal.induct)
  case (1 k)
  show ?case
  proof (cases "k < 10")
    case True
    then show ?thesis
      by (subst decimal.simps) (simp add: read_decimal_def digit_val_digit_char)
  next
    case False
    with 1 have "read_decimal (decimal (k div 10)) = k div 10" by simp
    with False show ?thesis
      by (subst decimal.simps) (simp add: read_decimal_snoc digit_val_digit_char)
  qed
qed

lemma decimal_digits: "decimal k \<noteq> [] \<and> set (decimal k) \<subseteq> set ''0123456789''"
proof (induction k rule: decimal.induct)
  case (1 k)
  show ?case
  proof (cases "k < 10")
    case True
    then show ?thesis
      using digit_char_digit [of k] by (subst (1 2) decimal.simps) simp
  next
    case False
    with 1 have "set (decimal (k div 10)) \<subseteq> set ''0123456789''" by simp
    with False show ?thesis
      using digit_char_digit [of k] by (subst (1 2) decimal.simps) simp
  qed
qed

lemma length_pad_digits: "length (pad_digits w k) = w"
  by (induction w arbitrary: k) simp_all

lemma pad_digits_digits: "set (pad_digits w k) \<subseteq> set ''0123456789''"
proof (induction w arbitrary: k)
  case 0
  show ?case by simp
next
  case (Suc w)
  from Suc [of "k div 10"] digit_char_digit [of k] show ?case by simp
qed

lemma read_decimal_pad_digits: "read_decimal (pad_digits w k) = k mod 10 ^ w"
proof (induction w arbitrary: k)
  case 0
  show ?case by (simp add: read_decimal_def)
next
  case (Suc w)
  have "read_decimal (pad_digits (Suc w) k) = 10 * (k div 10 mod 10 ^ w) + k mod 10"
    by (simp add: read_decimal_snoc digit_val_digit_char Suc)
  also have "\<dots> = k mod (10 * 10 ^ w)"
    by (simp add: mod_mult2_eq)
  finally show ?case by simp
qed

lemma round_half_even_near:
  assumes "0 \<le> r"
  shows "\<bar>real (round_half_even r) - r\<bar> \<le> 1 / 2"
proof -
  define f where "f = nat \<lfloor>r\<rfloor>"
  define rest where "rest = r - real f"
  have "real f = of_int \<lfloor>r\<rfloor>" using assms by (simp add: f_def)
  then have "real f \<le> r" "r < real f + 1" by linarith+
  then have rest: "0 \<le> rest" "rest < 1" by (simp_all add: rest_def)
  have r: "r = real f + rest" by (simp add: rest_def)
  have rhe: "round_half_even r =
               (if rest < 1 / 2 then f else if 1 / 2 < rest then f + 1
                else if even f then f else f + 1)"
    unfolding round_half_even_def Let_def f_def rest_def by (rule refl)
  show ?thesis
  proof (cases "rest < 1 / 2")
    case True
    then have "round_half_even r = f" by (simp add: rhe)
    with rest True r show ?thesis by linarith
  next
    case False
    note nlt = this
    show ?thesis
    proof (cases "1 / 2 < rest")
      case True
      with nlt have "real (round_half_even r) = real f + 1" by (simp add: rhe)
      with rest True r show ?thesis by linarith
    next
      case False
      with nlt have half: "rest = 1 / 2" by simp
      then have "round_half_even r = f \<or> round_half_even r = f + 1" by (simp add: rhe)
      then have "real (round_half_even r) = real f \<or> real (round_half_even r) = real f + 1"
        by auto
      with half r show ?thesis by linarith
    qed
  qed
qed

lemma fixed6_shape:
  assumes "0 \<le> a"
  shows "\<exists>ip fp. fixed6 a = ip @ ''.'' @ fp
        \<and> ip \<noteq> [] \<and> length fp = 6
        \<and> set (ip @ fp) \<subseteq> set ''0123456789''
        \<and> \<bar>real (read_decimal ip) + real (read_decimal fp) / 10 ^ 6 - a\<bar> \<le> 5 / 10 ^ 7"
proof -
  define m where "m = round_half_even (a * 10 ^ 6)"
  let ?ip = "decimal (m div 10 ^ 6)"
  let ?fp = "pad_digits 6 (m mod 10 ^ 6)"
  have shape: "fixed6 a = ?ip @ ''.'' @ ?fp"
    by (simp add: fixed6_def Let_def m_def)
  have digits: "set (?ip @ ?fp) \<subseteq> set ''0123456789''"
    using decimal_digits [of "m div 10 ^ 6"] pad_digits_digits [of 6 "m mod 10 ^ 6"]
    by simp
  have "real (read_decimal ?ip) + real (read_decimal ?fp) / 10 ^ 6
          = real (m div 10 ^ 6) + real (m mod 10 ^ 6) / 10 ^ 6"
    by (simp add: read_decimal_decimal read_decimal_pad_digits)
  also have "\<dots> = (real (m div 10 ^ 6) * 10 ^ 6 + real (m mod 10 ^ 6)) / 10 ^ 6"
    by (simp add: add_divide_distrib)
  also have "real (m div 10 ^ 6) * 10 ^ 6 + real (m mod 10 ^ 6)
               = real (m div 10 ^ 6 * 10 ^ 6 + m mod 10 ^ 6)"
    by (simp only: of_nat_add of_nat_mult of_nat_power of_nat_numeral)
  also have "m div 10 ^ 6 * 10 ^ 6 + m mod 10 ^ 6 = m"
    by (rule div_mult_mod_eq)
  finally have val: "real (read_decimal ?ip) + real (read_decimal ?fp) / 10 ^ 6 = real m / 10 ^ 6" .
  have "\<bar>real m - a * 10 ^ 6\<bar> \<le> 1 / 2"
    unfolding m_def using assms by (intro round_half_even_near) simp
  then have close: "\<bar>real m / 10 ^ 6 - a\<bar> \<le> 5 / 10 ^ 7"
    by (simp add: field_simps abs_le_iff)
  have near: "\<bar>real (read_decimal ?ip) + real (read_decimal ?fp) / 10 ^ 6 - a\<bar> \<le> 5 / 10 ^ 7"
    unfolding val by (rule close)
  have "?ip \<noteq> []" using decimal_digits [of "m div 10 ^ 6"] by blast
  moreover have "length ?fp = 6" by (rule length_pad_digits)
  ultimately show ?thesis using shape digits near by blast
qed

lemma to_string_finite:
  assumes "is_finite c"
  shows "to_string c = (if sign_bit c then ''-'' else []) @ fixed6 \<bar>valof c\<bar>"
  using assms by (cases c) simp_all

lemma pad_digits_6:
  "pad_digits 6 k =
     [digit_char (k div 10 div 10 div 10 div 10 div 10), digit_char (k div 10 div 10 div 10 div 10),
      digit_char (k div 10 div 10 div 10), digit_char (k div 10 div 10), digit_char (k div 10),
      digit_char k]"
proof -
  have "(6::nat) = Suc (Suc (Suc (Suc (Suc (Suc 0)))))" by simp
  then show ?thesis by (simp only: pad_digits.simps append.simps)
qed

lemma is_double_half: "is_double (Fin (1 / 2))"
  by simp (subst round_to_double_eval [where e = "- 1"], simp_all add: round_half_even_def Let_def
      huge_def)

lemma is_double_2m24: "is_double (Fin (1 / 2 ^ 24))"
  by simp (subst round_to_double_eval [where e = "- 24"], simp_all add: round_half_even_def Let_def
      huge_def)

section \<open>The error of one rounding\<close>

lemma eta_pos: "0 < eta"
  by (simp add: eta_def)

lemma quantum_pos: "0 < quantum a"
  by (simp add: quantum_def)

lemma nearest_error_quantum:
  assumes "0 \<le> a"
  shows "\<bar>nearest a - a\<bar> \<le> quantum a / 2"
proof -
  define q where "q = quantum a"
  have q: "0 < q" by (simp add: q_def quantum_pos)
  have "\<bar>real (round_half_even (a / q)) - a / q\<bar> \<le> 1 / 2"
    using assms q by (intro round_half_even_near) simp
  then have "\<bar>real (round_half_even (a / q)) - a / q\<bar> * q \<le> 1 / 2 * q"
    using q by (intro mult_right_mono) simp_all
  moreover have "\<bar>real (round_half_even (a / q)) - a / q\<bar> * q
                   = \<bar>real (round_half_even (a / q)) * q - a\<bar>"
  proof -
    have "\<bar>real (round_half_even (a / q)) - a / q\<bar> * q
            = \<bar>(real (round_half_even (a / q)) - a / q) * q\<bar>"
      using q by (simp add: abs_mult)
    also have "(real (round_half_even (a / q)) - a / q) * q
                 = real (round_half_even (a / q)) * q - a"
      using q by (simp add: left_diff_distrib)
    finally show ?thesis .
  qed
  ultimately show ?thesis by (simp add: nearest_def q_def)
qed

lemma quantum_le:
  assumes "0 < a"
  shows "quantum a \<le> a / 2 ^ 52 + 2 * eta"
proof (cases "- 1022 \<le> \<lfloor>log 2 a\<rfloor>")
  case True
  then have "max \<lfloor>log 2 a\<rfloor> (- 1022) = \<lfloor>log 2 a\<rfloor>" by (rule max_absorb1)
  then have "quantum a = 2 powi (\<lfloor>log 2 a\<rfloor> - 52)"
    unfolding quantum_def by (rule arg_cong)
  also have "\<dots> = 2 powi \<lfloor>log 2 a\<rfloor> / 2 ^ 52"
    using two_powi_split [of "\<lfloor>log 2 a\<rfloor>"] by simp
  also have "\<dots> \<le> a / 2 ^ 52"
    using two_powi_floor_log_le [OF assms] by (simp add: divide_right_mono)
  finally show ?thesis using eta_pos by linarith
next
  case False
  then have "max \<lfloor>log 2 a\<rfloor> (- 1022) = - 1022" by (intro max_absorb2) linarith
  then have "quantum a = 2 powi (- 1022 - 52)"
    unfolding quantum_def by (rule arg_cong)
  then have "quantum a = 2 powi (- 1074)" by (simp only: diff_conv_add_uminus minus_add_distrib
      [symmetric] add_neg_numeral_simps arith_simps)
  also have "\<dots> = 2 * eta"
  proof -
    have "(2::real) powi (- 1074) = 2 powi (1 + (- 1075))" by simp
    also have "\<dots> = 2 powi 1 * 2 powi (- 1075)" by (rule power_int_add) simp
    finally show ?thesis by (simp add: eta_def)
  qed
  finally show ?thesis using assms by simp
qed

lemma nearest_error:
  assumes "0 \<le> a"
  shows "\<bar>nearest a - a\<bar> \<le> a / 2 ^ 53 + eta"
proof (cases "a = 0")
  case True
  then show ?thesis using eta_pos by (simp add: nearest_def round_half_even_def)
next
  case False
  with assms have "0 < a" by simp
  from quantum_le [OF this] nearest_error_quantum [OF assms] show ?thesis by simp
qed

lemma eta_le_one: "eta \<le> 1"
proof -
  have "(2::real) powi (- 1075) \<le> 2 powi 0"
    by (rule power_int_increasing) simp_all
  then show ?thesis by (simp add: eta_def)
qed

lemma huge_double: "huge = 2 * 2 ^ 1023"
proof -
  have e: "(1024::nat) = 1 + 1023" by simp
  show ?thesis unfolding huge_def e power_add by simp
qed

lemma nearest_lt_huge:
  assumes "0 \<le> a" "a < 2 ^ 1023"
  shows "nearest a < huge"
proof -
  define H :: real where "H = 2 ^ 1023"
  have "(2::real) ^ 1 \<le> 2 ^ 1023" by (rule power_increasing) simp_all
  then have H1: "2 \<le> H" by (simp only: H_def power_one_right)
  have aH: "a < H" using assms by (simp only: H_def)
  have hH: "huge = 2 * H" by (simp only: H_def huge_double)
  from nearest_error [OF assms(1)] have "nearest a \<le> a + a / 2 ^ 53 + eta" by linarith
  moreover have "a / 2 ^ 53 \<le> a / 4" using assms(1) by (intro divide_left_mono) simp_all
  ultimately show ?thesis using aH H1 eta_le_one unfolding hH by linarith
qed

lemma round_to_double_error:
  assumes "\<bar>r\<bar> < 2 ^ 1023"
  shows "is_finite (round_to_double r)"
    and "\<bar>valof (round_to_double r) - r\<bar> \<le> \<bar>r\<bar> / 2 ^ 53 + eta"
    and "0 \<le> r \<Longrightarrow> 0 \<le> valof (round_to_double r)"
proof -
  have all: "is_finite (round_to_double r)
       \<and> \<bar>valof (round_to_double r) - r\<bar> \<le> \<bar>r\<bar> / 2 ^ 53 + eta
       \<and> (0 \<le> r \<longrightarrow> 0 \<le> valof (round_to_double r))"
  proof (cases "r = 0")
    case True
    then show ?thesis using eta_pos by simp
  next
    case False
    have lt: "\<not> huge \<le> nearest \<bar>r\<bar>"
      using nearest_lt_huge [of "\<bar>r\<bar>"] assms by simp
    have err: "\<bar>nearest \<bar>r\<bar> - \<bar>r\<bar>\<bar> \<le> \<bar>r\<bar> / 2 ^ 53 + eta"
      by (rule nearest_error) simp
    have nn: "0 \<le> nearest \<bar>r\<bar>" by simp
    show ?thesis
    proof (cases "nearest \<bar>r\<bar> = 0")
      case True
      then have "is_finite (round_to_double r)" "valof (round_to_double r) = 0"
        using False lt by (simp_all add: round_to_double_nonzero)
      with err True show ?thesis by simp
    next
      case nz: False
      show ?thesis
      proof (cases "r < 0")
        case True
        then have "round_to_double r = Fin (- nearest \<bar>r\<bar>)"
          using False lt nz by (simp add: round_to_double_nonzero)
        with err True show ?thesis by simp
      next
        case False
        then have "round_to_double r = Fin (nearest \<bar>r\<bar>)"
          using \<open>r \<noteq> 0\<close> lt nz by (simp add: round_to_double_nonzero)
        with err False nn show ?thesis by simp
      qed
    qed
  qed
  from all show "is_finite (round_to_double r)" by simp
  from all show "\<bar>valof (round_to_double r) - r\<bar> \<le> \<bar>r\<bar> / 2 ^ 53 + eta" by simp
  from all show "0 \<le> r \<Longrightarrow> 0 \<le> valof (round_to_double r)" by simp
qed

lemma fmul_error:
  assumes "is_finite a" "is_finite b" "\<bar>valof a * valof b\<bar> < 2 ^ 1023"
  shows "is_finite (fmul a b)"
    and "\<bar>valof (fmul a b) - valof a * valof b\<bar> \<le> \<bar>valof a * valof b\<bar> / 2 ^ 53 + eta"
    and "0 \<le> valof a * valof b \<Longrightarrow> 0 \<le> valof (fmul a b)"
  using round_to_double_error [OF assms(3)] eta_pos
  by (simp_all add: fmul_finite [OF assms(1,2)])

lemma fadd_error:
  assumes "is_finite a" "is_finite b" "\<bar>valof a + valof b\<bar> < 2 ^ 1023"
  shows "is_finite (fadd a b)"
    and "\<bar>valof (fadd a b) - (valof a + valof b)\<bar> \<le> \<bar>valof a + valof b\<bar> / 2 ^ 53 + eta"
    and "0 \<le> valof a + valof b \<Longrightarrow> 0 \<le> valof (fadd a b)"
  using round_to_double_error [OF assms(3)] eta_pos
  by (simp_all add: fadd_finite [OF assms(1,2)])

lemma fdiv_error:
  assumes "is_finite a" "is_finite b" "valof b \<noteq> 0" "\<bar>valof a / valof b\<bar> < 2 ^ 1023"
  shows "is_finite (fdiv a b)"
    and "\<bar>valof (fdiv a b) - valof a / valof b\<bar> \<le> \<bar>valof a / valof b\<bar> / 2 ^ 53 + eta"
proof -
  have nz: "\<not> is_zero b" using assms(3) by (simp add: is_zero_iff)
  show "is_finite (fdiv a b)"
    using round_to_double_error [OF assms(4)]
    by (simp add: fdiv_finite [OF assms(1,2) nz])
  show "\<bar>valof (fdiv a b) - valof a / valof b\<bar> \<le> \<bar>valof a / valof b\<bar> / 2 ^ 53 + eta"
    using round_to_double_error [OF assms(4)] eta_pos
    by (simp add: fdiv_finite [OF assms(1,2) nz])
qed

section \<open>Real arithmetic of the error bounds\<close>

lemma sum_squares_error:
  fixes X Y Z h sx sy sz t1 t2 :: real
  assumes "0 \<le> X" "0 \<le> Y" "0 \<le> Z" "0 \<le> h" "h \<le> (X + Y + Z) / 2 ^ 75"
    and "\<bar>sx - X\<bar> \<le> X / 2 ^ 53 + h" "\<bar>sy - Y\<bar> \<le> Y / 2 ^ 53 + h" "\<bar>sz - Z\<bar> \<le> Z / 2 ^ 53 + h"
    and "0 \<le> sx" "0 \<le> sy" "0 \<le> sz" "0 \<le> t1"
    and "\<bar>t1 - (sx + sy)\<bar> \<le> (sx + sy) / 2 ^ 53 + h"
    and "\<bar>t2 - (t1 + sz)\<bar> \<le> (t1 + sz) / 2 ^ 53 + h"
  shows "\<bar>t2 - (X + Y + Z)\<bar> \<le> (X + Y + Z) / 2 ^ 50"
proof -
  define S where "S = X + Y + Z"
  have p: "(2::real) ^ 75 = 37778931862957161709568" "(2::real) ^ 53 = 9007199254740992"
    "(2::real) ^ 50 = 1125899906842624" by simp_all
  have s1u: "sx + sy \<le> (X + Y) + (X + Y) / 2 ^ 53 + 2 * h"
    using assms(6,7) unfolding p by argo
  have s1l: "(X + Y) - (X + Y) / 2 ^ 53 - 2 * h \<le> sx + sy"
    using assms(6,7) unfolding p by argo
  have t1u: "t1 \<le> (X + Y) + 3 * ((X + Y) / 2 ^ 53) + 4 * h"
    using s1u assms(13) assms(1,2,4) unfolding p by argo
  have t1l: "(X + Y) - 2 * ((X + Y) / 2 ^ 53) - 3 * h \<le> t1"
    using s1l assms(13) assms(1,2,4) unfolding p by argo
  have s2u: "t1 + sz \<le> S + 3 * (S / 2 ^ 53) + 5 * h"
    using t1u assms(8) assms(1,2,3,4) unfolding S_def p by argo
  have s2l: "S - 2 * (S / 2 ^ 53) - 4 * h \<le> t1 + sz"
    using t1l assms(8) assms(1,2,3,4) unfolding S_def p by argo
  have S0: "0 \<le> S" using assms(1,2,3) by (simp add: S_def)
  have hS: "h \<le> S / 2 ^ 75" using assms(5) by (simp only: S_def)
  have "\<bar>t2 - S\<bar> \<le> S / 2 ^ 50"
    using s2u s2l assms(14) S0 hS assms(4) unfolding p by argo
  then show ?thesis by (simp only: S_def)
qed

lemma sqrt_le_self: "1 \<le> r \<Longrightarrow> sqrt r \<le> r"
proof -
  assume r: "1 \<le> r"
  then have "1 \<le> sqrt r" by simp
  then have "sqrt r * 1 \<le> sqrt r * sqrt r" by (intro mult_left_mono) simp_all
  then show ?thesis using r by simp
qed

lemma self_le_sqrt: "0 \<le> r \<Longrightarrow> r \<le> 1 \<Longrightarrow> r \<le> sqrt r"
proof -
  assume r: "0 \<le> r" "r \<le> 1"
  then have "sqrt r \<le> 1" by simp
  then have "sqrt r * sqrt r \<le> sqrt r * 1" using r by (intro mult_left_mono) simp_all
  then show ?thesis using r by simp
qed

lemma sqrt_near:
  assumes S: "0 \<le> S" and e: "0 \<le> e" "e \<le> 1" and t: "\<bar>t - S\<bar> \<le> S * e"
  shows "\<bar>sqrt t - sqrt S\<bar> \<le> sqrt S * e"
proof -
  have "t \<le> S * (1 + e)" using t by (simp add: algebra_simps) 
  then have "sqrt t \<le> sqrt (S * (1 + e))" by simp
  also have "\<dots> = sqrt S * sqrt (1 + e)" by (rule real_sqrt_mult)
  also have "\<dots> \<le> sqrt S * (1 + e)"
    using S e by (intro mult_left_mono sqrt_le_self) simp_all
  finally have up: "sqrt t \<le> sqrt S * (1 + e)" .
  have "S * (1 - e) \<le> t" using t by (simp add: algebra_simps)
  then have "sqrt (S * (1 - e)) \<le> sqrt t" by simp
  moreover have "sqrt (S * (1 - e)) = sqrt S * sqrt (1 - e)" by (rule real_sqrt_mult)
  moreover have "sqrt S * (1 - e) \<le> sqrt S * sqrt (1 - e)"
    using S e by (intro mult_left_mono self_le_sqrt) simp_all
  ultimately have lo: "sqrt S * (1 - e) \<le> sqrt t" by simp
  from up lo show ?thesis by (simp add: algebra_simps abs_le_iff)
qed

lemma sqrt_le_add_one: "0 \<le> r \<Longrightarrow> sqrt r \<le> 1 + r"
proof (cases "r \<le> 1")
  case True
  assume "0 \<le> r"
  from True have "sqrt r \<le> 1" by simp
  with \<open>0 \<le> r\<close> show ?thesis by linarith
next
  case False
  then have "sqrt r \<le> r" by (intro sqrt_le_self) simp
  then show ?thesis by linarith
qed

lemma quotient_near:
  fixes c n s :: real
  assumes s: "0 < s" and n: "\<bar>n - s\<bar> \<le> s / 2 ^ 49" and c: "\<bar>c\<bar> \<le> s"
  shows "0 < n" and "\<bar>c / n\<bar> \<le> 2" and "\<bar>c / n - c / s\<bar> \<le> 1 / 2 ^ 48"
proof -
  have p: "(2::real) ^ 49 = 562949953421312" by simp
  have half: "s \<le> 2 * n" using s n unfolding p by argo
  with s show npos: "0 < n" by linarith
  have "\<bar>c\<bar> / n \<le> 2" using npos c half by (simp add: pos_divide_le_eq)
  then show q2: "\<bar>c / n\<bar> \<le> 2" using npos by simp
  have "\<bar>s - n\<bar> / s \<le> 1 / 2 ^ 49"
    using s n by (simp add: pos_divide_le_eq abs_minus_commute)
  then have r: "\<bar>(s - n) / s\<bar> \<le> 1 / 2 ^ 49" using s by simp
  have "c / n - c / s = (c / n) * ((s - n) / s)"
    using s npos by (simp add: field_simps)
  then have "\<bar>c / n - c / s\<bar> = \<bar>c / n\<bar> * \<bar>(s - n) / s\<bar>" by (simp only: abs_mult)
  also have "\<dots> \<le> 2 * (1 / 2 ^ 49)" using q2 r by (intro mult_mono) simp_all
  also have "\<dots> = 1 / 2 ^ 48" by simp
  finally show "\<bar>c / n - c / s\<bar> \<le> 1 / 2 ^ 48" .
qed

lemma square_near:
  fixes w g e :: real
  assumes "\<bar>w - g\<bar> \<le> e" "\<bar>g\<bar> \<le> 1" "e \<le> 1"
  shows "\<bar>w * w - g * g\<bar> \<le> 3 * e"
proof -
  have "w * w - g * g = (w - g) * (w + g)" by (simp add: algebra_simps)
  then have "\<bar>w * w - g * g\<bar> = \<bar>w - g\<bar> * \<bar>w + g\<bar>" by (simp only: abs_mult)
  also have "\<dots> \<le> e * 3" using assms by (intro mult_mono) linarith+
  finally show ?thesis by simp
qed

section \<open>The error of the computed norm\<close>

lemma valof_Fin: "is_finite a \<Longrightarrow> valof a \<noteq> 0 \<Longrightarrow> a = Fin (valof a)"
  by (cases a) simp_all

lemma eta_scaled: "eta * (2 ^ 75 * 2 ^ 1000) = 1"
proof -
  have "(2::real) ^ 75 * 2 ^ 1000 = 2 ^ 1075" by (simp only: power_add [symmetric]) simp
  also have "\<dots> = 2 powi 1075" by simp
  finally have "eta * (2 ^ 75 * 2 ^ 1000) = 2 powi (- 1075) * 2 powi 1075"
    by (simp only: eta_def)
  also have "\<dots> = 2 powi (- 1075 + 1075)" by (rule power_int_add [symmetric]) simp
  finally show ?thesis by simp
qed

lemma square_le_big:
  fixes c :: real
  assumes "\<bar>c\<bar> \<le> 2 ^ 500"
  shows "c * c \<le> 2 ^ 1000"
proof -
  have "\<bar>c\<bar> * \<bar>c\<bar> \<le> 2 ^ 500 * 2 ^ 500" using assms by (intro mult_mono) simp_all
  also have "(2::real) ^ 500 * 2 ^ 500 = 2 ^ 1000" by (simp only: power_add [symmetric]) simp
  finally show ?thesis by simp
qed

lemma big_split: "(2::real) ^ 1023 = 2 ^ 23 * 2 ^ 1000"
  by (simp only: power_add [symmetric]) simp

lemma square_error:
  assumes fin: "is_finite a" and le: "\<bar>valof a\<bar> \<le> 2 ^ 500"
  shows "is_finite (fmul a a)"
    and "0 \<le> valof (fmul a a)"
    and "\<bar>valof (fmul a a) - valof a * valof a\<bar> \<le> valof a * valof a / 2 ^ 53 + eta"
    and "valof (fmul a a) \<le> 2 * 2 ^ 1000 + 1"
proof -
  define B :: real where "B = 2 ^ 1000"
  define X where "X = valof a * valof a"
  have B1: "1 \<le> B" unfolding B_def by (rule one_le_power) simp
  have X0: "0 \<le> X" by (simp add: X_def)
  have XB: "X \<le> B" unfolding X_def B_def using le by (rule square_le_big)
  have big: "(2::real) ^ 1023 = 8388608 * B" unfolding B_def big_split by simp
  have "\<bar>X\<bar> < 2 ^ 1023" unfolding big using X0 XB B1 by linarith
  then have lt: "\<bar>valof a * valof a\<bar> < 2 ^ 1023" by (simp only: X_def)
  show "is_finite (fmul a a)" by (rule fmul_error(1) [OF fin fin lt])
  show "0 \<le> valof (fmul a a)" by (rule fmul_error(3) [OF fin fin lt]) simp
  from fmul_error(2) [OF fin fin lt]
  show e: "\<bar>valof (fmul a a) - valof a * valof a\<bar> \<le> valof a * valof a / 2 ^ 53 + eta"
    by simp
  have p: "(2::real) ^ 53 = 9007199254740992" by simp
  from e have "\<bar>valof (fmul a a) - X\<bar> \<le> X / 2 ^ 53 + eta" by (simp only: X_def)
  then have "valof (fmul a a) \<le> 2 * B + 1"
    using X0 XB eta_le_one unfolding p by argo
  then show "valof (fmul a a) \<le> 2 * 2 ^ 1000 + 1" by (simp only: B_def)
qed

lemma Vector3_norm_error:
  assumes fin: "Vector3_finite v"
    and le: "\<bar>valof (x v)\<bar> \<le> 2 ^ 500" "\<bar>valof (y v)\<bar> \<le> 2 ^ 500"
            "\<bar>valof (z v)\<bar> \<le> 2 ^ 500"
    and S: "S = valof (x v) * valof (x v) + valof (y v) * valof (y v)
                  + valof (z v) * valof (z v)"
    and ge: "1 / 2 ^ 1000 \<le> S"
  shows "\<exists>n. Vector3_norm v = Fin n \<and> \<bar>n - sqrt S\<bar> \<le> sqrt S / 2 ^ 49"
proof -
  define B :: real where "B = 2 ^ 1000"
  define M :: real where "M = 2 ^ 500"
  have B1: "1 \<le> B" unfolding B_def by (rule one_le_power) simp
  have M1: "1 \<le> M" unfolding M_def by (rule one_le_power) simp
  have BM: "B = M * M" unfolding B_def M_def by (simp only: power_add [symmetric]) simp
  have big: "(2::real) ^ 1023 = 8388608 * B" unfolding B_def big_split by simp
  have etaB: "eta * (2 ^ 75 * B) = 1" unfolding B_def by (rule eta_scaled)
  have p: "(2::real) ^ 75 = 37778931862957161709568" "(2::real) ^ 53 = 9007199254740992"
    "(2::real) ^ 50 = 1125899906842624" "(2::real) ^ 49 = 562949953421312" by simp_all
  from fin have f: "is_finite (x v)" "is_finite (y v)" "is_finite (z v)"
    by (simp_all add: Vector3_finite_def)
  define X where "X = valof (x v) * valof (x v)"
  define Y where "Y = valof (y v) * valof (y v)"
  define Z where "Z = valof (z v) * valof (z v)"
  define sx where "sx = valof (fmul (x v) (x v))"
  define sy where "sy = valof (fmul (y v) (y v))"
  define sz where "sz = valof (fmul (z v) (z v))"
  define a1 where "a1 = fadd (fmul (x v) (x v)) (fmul (y v) (y v))"
  define a2 where "a2 = fadd a1 (fmul (z v) (z v))"
  define t1 where "t1 = valof a1"
  define t2 where "t2 = valof a2"
  have XYZ: "0 \<le> X" "0 \<le> Y" "0 \<le> Z" by (simp_all add: X_def Y_def Z_def)
  have SXYZ: "S = X + Y + Z" by (simp only: S X_def Y_def Z_def)
  have S0: "0 < S"
  proof -
    have "0 < 1 / B" using B1 by simp
    with ge show ?thesis by (simp only: B_def)
  qed
  have SB: "S \<le> 3 * B"
    using square_le_big [OF le(1)] square_le_big [OF le(2)] square_le_big [OF le(3)]
    unfolding S B_def by linarith
  note qx = square_error [OF f(1) le(1), folded sx_def X_def B_def]
  note qy = square_error [OF f(2) le(2), folded sy_def Y_def B_def]
  note qz = square_error [OF f(3) le(3), folded sz_def Z_def B_def]
  have lt1: "\<bar>valof (fmul (x v) (x v)) + valof (fmul (y v) (y v))\<bar> < 2 ^ 1023"
    unfolding big sx_def [symmetric] sy_def [symmetric]
    using qx(2,4) qy(2,4) B1 by linarith
  note r1 = fadd_error [OF qx(1) qy(1) lt1, folded a1_def, folded t1_def sx_def sy_def]
  have t10: "0 \<le> t1" using qx(2) qy(2) by (intro r1(3)) simp
  have t1B: "t1 \<le> 8 * B + 5"
    using r1(2) qx(2,4) qy(2,4) eta_le_one unfolding p by argo
  have lt2: "\<bar>valof a1 + valof (fmul (z v) (z v))\<bar> < 2 ^ 1023"
    unfolding big sz_def [symmetric] t1_def [symmetric]
    using t10 t1B qz(2,4) B1 by linarith
  note r2 = fadd_error [OF r1(1) qz(1) lt2, folded a2_def, folded t2_def t1_def sz_def]
  have etaS: "eta \<le> (X + Y + Z) / 2 ^ 75"
  proof -
    have "eta = (1 / B) / 2 ^ 75" using etaB B1 by (simp add: field_simps)
    also have "\<dots> \<le> S / 2 ^ 75" using ge by (intro divide_right_mono) (simp_all add: B_def)
    finally show ?thesis by (simp only: SXYZ)
  qed
  have sum: "\<bar>t2 - (X + Y + Z)\<bar> \<le> (X + Y + Z) / 2 ^ 50"
  proof (rule sum_squares_error [where h = eta and sx = sx and sy = sy and sz = sz and ?t1.0 = t1])
    show "0 \<le> X" "0 \<le> Y" "0 \<le> Z" by (rule XYZ)+
    show "0 \<le> eta" using eta_pos by simp
    show "eta \<le> (X + Y + Z) / 2 ^ 75" by (rule etaS)
    show "\<bar>sx - X\<bar> \<le> X / 2 ^ 53 + eta" by (rule qx(3))
    show "\<bar>sy - Y\<bar> \<le> Y / 2 ^ 53 + eta" by (rule qy(3))
    show "\<bar>sz - Z\<bar> \<le> Z / 2 ^ 53 + eta" by (rule qz(3))
    show "0 \<le> sx" "0 \<le> sy" "0 \<le> sz" by (rule qx(2) qy(2) qz(2))+
    show "0 \<le> t1" by (rule t10)
    show "\<bar>t1 - (sx + sy)\<bar> \<le> (sx + sy) / 2 ^ 53 + eta"
      using r1(2) qx(2) qy(2) by simp
    show "\<bar>t2 - (t1 + sz)\<bar> \<le> (t1 + sz) / 2 ^ 53 + eta"
      using r2(2) t10 qz(2) by simp
  qed
  then have tS: "\<bar>t2 - S\<bar> \<le> S * (1 / 2 ^ 50)" by (simp add: SXYZ)
  have t2pos: "0 < t2" using tS S0 unfolding p by argo
  have t2B: "t2 \<le> 6 * B" using tS S0 SB unfolding p by argo
  have a2: "a2 = Fin t2"
    unfolding t2_def using r2(1) t2pos by (intro valof_Fin) (simp_all add: t2_def)
  have norm: "Vector3_norm v = round_to_double (sqrt t2)"
    using t2pos by (simp add: Vector3_norm_def a1_def [symmetric] a2_def [symmetric] a2)
  define s where "s = sqrt S"
  define r where "r = sqrt t2"
  define n where "n = valof (round_to_double r)"
  have s0: "0 < s" using S0 by (simp add: s_def)
  have r0: "0 \<le> r" using t2pos by (simp add: r_def)
  have "r \<le> 1 + t2" unfolding r_def using t2pos by (intro sqrt_le_add_one) simp
  then have ltr: "\<bar>r\<bar> < 2 ^ 1023" unfolding big using r0 t2B B1 by linarith
  note rr = round_to_double_error [OF ltr, folded n_def]
  have rs: "\<bar>r - s\<bar> \<le> s * (1 / 2 ^ 50)"
    unfolding r_def s_def using S0 tS by (intro sqrt_near) simp_all
  have etas: "eta \<le> s / 2 ^ 75"
  proof -
    have "sqrt (1 / B) \<le> s" unfolding s_def using ge by (simp only: B_def real_sqrt_le_iff)
    moreover have "sqrt (1 / B) = 1 / M"
      using M1 by (simp add: BM real_sqrt_divide)
    moreover have "1 / B \<le> 1 / M" using M1 unfolding BM by (simp add: field_simps)
    ultimately have "1 / B \<le> s" by linarith
    moreover have "eta = (1 / B) / 2 ^ 75" using etaB B1 by (simp add: field_simps)
    ultimately show ?thesis by (simp add: divide_right_mono)
  qed
  have near: "\<bar>n - s\<bar> \<le> s / 2 ^ 49"
    using rr(2) rs etas r0 s0 unfolding p by argo
  have npos: "0 < n" using near s0 unfolding p by argo
  have "round_to_double r = Fin n"
    unfolding n_def using rr(1) npos by (intro valof_Fin) (simp_all add: n_def)
  then have "Vector3_norm v = Fin n \<and> \<bar>n - sqrt S\<bar> \<le> sqrt S / 2 ^ 49"
    using near by (simp add: norm r_def s_def)
  then show ?thesis by (rule exI)
qed

lemma eta_small: "eta \<le> 1 / 2 ^ 75"
proof -
  have B1: "(1::real) \<le> 2 ^ 1000" by (rule one_le_power) simp
  then have "eta = (1 / 2 ^ 1000) / 2 ^ 75" using eta_scaled by (simp add: field_simps)
  also have "\<dots> \<le> 1 / 2 ^ 75" using B1 by (intro divide_right_mono) (simp_all add: field_simps)
  finally show ?thesis .
qed

lemma abs_le_sqrt_sum:
  fixes a b c :: real
  shows "\<bar>a\<bar> \<le> sqrt (a * a + b * b + c * c)"
    and "\<bar>b\<bar> \<le> sqrt (a * a + b * b + c * c)"
    and "\<bar>c\<bar> \<le> sqrt (a * a + b * b + c * c)"
proof -
  have "sqrt (a * a) \<le> sqrt (a * a + b * b + c * c)" by (simp only: real_sqrt_le_iff) simp
  then show "\<bar>a\<bar> \<le> sqrt (a * a + b * b + c * c)" by simp
  have "sqrt (b * b) \<le> sqrt (a * a + b * b + c * c)" by (simp only: real_sqrt_le_iff) simp
  then show "\<bar>b\<bar> \<le> sqrt (a * a + b * b + c * c)" by simp
  have "sqrt (c * c) \<le> sqrt (a * a + b * b + c * c)" by (simp only: real_sqrt_le_iff) simp
  then show "\<bar>c\<bar> \<le> sqrt (a * a + b * b + c * c)" by simp
qed

lemma square_ge_tiny:
  fixes c :: real
  assumes "1 / 2 ^ 500 \<le> \<bar>c\<bar>"
  shows "1 / 2 ^ 1000 \<le> c * c"
proof -
  have "(1 / 2 ^ 500) * (1 / 2 ^ 500) \<le> \<bar>c\<bar> * \<bar>c\<bar>"
    using assms by (intro mult_mono) simp_all
  moreover have "(1 / 2 ^ 500) * (1 / 2 ^ 500) = 1 / (2::real) ^ 1000"
  proof -
    have "(2::real) ^ 500 * 2 ^ 500 = 2 ^ 1000" by (simp only: power_add [symmetric]) simp
    then show ?thesis by (simp only: times_divide_times_eq mult_1)
  qed
  ultimately show ?thesis by simp
qed

lemma component_error:
  fixes c n s :: real
  assumes fin: "is_finite a" and c: "c = valof a"
    and s: "0 < s" and n: "\<bar>n - s\<bar> \<le> s / 2 ^ 49" and cs: "\<bar>c\<bar> \<le> s"
  shows "is_finite (fdiv a (Fin n))"
    and "\<bar>valof (fdiv a (Fin n)) - c / s\<bar> \<le> 1 / 2 ^ 47"
proof -
  note q = quotient_near [OF s n cs]
  have big: "(2::real) ^ 1023 = 8388608 * 2 ^ 1000" unfolding big_split by simp
  have B1: "(1::real) \<le> 2 ^ 1000" by (rule one_le_power) simp
  have lt: "\<bar>valof a / valof (Fin n)\<bar> < 2 ^ 1023"
    unfolding big using q(2) B1 by (simp add: c)
  have fn: "is_finite (Fin n)" by simp
  have nz: "valof (Fin n) \<noteq> 0" using q(1) by simp
  show "is_finite (fdiv a (Fin n))" by (rule fdiv_error(1) [OF fin fn nz lt])
  have p: "(2::real) ^ 75 = 37778931862957161709568" "(2::real) ^ 53 = 9007199254740992"
    "(2::real) ^ 48 = 281474976710656" "(2::real) ^ 47 = 140737488355328" by simp_all
  from fdiv_error(2) [OF fin fn nz lt]
  have "\<bar>valof (fdiv a (Fin n)) - c / n\<bar> \<le> \<bar>c / n\<bar> / 2 ^ 53 + eta" by (simp add: c)
  then show "\<bar>valof (fdiv a (Fin n)) - c / s\<bar> \<le> 1 / 2 ^ 47"
    using q(2,3) eta_small unfolding p by argo
qed

lemma unit_sum:
  fixes a b c :: real
  assumes "0 < a * a + b * b + c * c" and "s = sqrt (a * a + b * b + c * c)"
  shows "(a / s) * (a / s) + (b / s) * (b / s) + (c / s) * (c / s) = 1"
proof -
  have ss: "s * s = a * a + b * b + c * c" using assms by simp
  have "(a / s) * (a / s) + (b / s) * (b / s) + (c / s) * (c / s)
          = (a * a + b * b + c * c) / (s * s)"
    by (simp add: add_divide_distrib)
  also have "\<dots> = 1" using assms(1) by (simp only: ss) simp
  finally show ?thesis .
qed

lemma normalize_unit_norm_aux:
  assumes fin: "Vector3_finite v"
    and le: "\<bar>valof (x v)\<bar> \<le> 2 ^ 500" "\<bar>valof (y v)\<bar> \<le> 2 ^ 500"
            "\<bar>valof (z v)\<bar> \<le> 2 ^ 500"
    and ge: "1 / 2 ^ 500 \<le> \<bar>valof (x v)\<bar> \<or> 1 / 2 ^ 500 \<le> \<bar>valof (y v)\<bar>
              \<or> 1 / 2 ^ 500 \<le> \<bar>valof (z v)\<bar>"
  shows "\<exists>n. Vector3_norm v = Fin n \<and> 0 < n"
    and "\<exists>m. Vector3_norm (Vector3_normalize v) = Fin m \<and> \<bar>m - 1\<bar> \<le> 1 / 10 ^ 12"
proof -
  define S where "S = valof (x v) * valof (x v) + valof (y v) * valof (y v)
                  + valof (z v) * valof (z v)"
  define s where "s = sqrt S"
  from fin have f: "is_finite (x v)" "is_finite (y v)" "is_finite (z v)"
    by (simp_all add: Vector3_finite_def)
  have sq0: "0 \<le> valof (x v) * valof (x v)" "0 \<le> valof (y v) * valof (y v)"
    "0 \<le> valof (z v) * valof (z v)" by simp_all
  have Sge: "1 / 2 ^ 1000 \<le> S"
    using ge square_ge_tiny [of "valof (x v)"] square_ge_tiny [of "valof (y v)"]
      square_ge_tiny [of "valof (z v)"] sq0
    unfolding S_def by linarith
  have "(0::real) < 1 / 2 ^ 1000" by simp
  with Sge have S0: "0 < S" by linarith
  then have s0: "0 < s" by (simp add: s_def)
  from Vector3_norm_error [OF fin le S_def Sge]
  obtain n where n: "Vector3_norm v = Fin n" and near: "\<bar>n - s\<bar> \<le> s / 2 ^ 49"
    unfolding s_def by blast
  have cs: "\<bar>valof (x v)\<bar> \<le> s" "\<bar>valof (y v)\<bar> \<le> s" "\<bar>valof (z v)\<bar> \<le> s"
    unfolding s_def S_def by (rule abs_le_sqrt_sum)+
  note qx = quotient_near [OF s0 near cs(1)]
  show "\<exists>n. Vector3_norm v = Fin n \<and> 0 < n" using n qx(1) by simp
  define w where "w = Vector3_normalize v"
  have "\<not> feq (Vector3_norm v) (Fin 0)" using qx(1) by (simp add: n is_zero_def)
  then have w: "w = mk_Vector3 (fdiv (x v) (Fin n)) (fdiv (y v) (Fin n)) (fdiv (z v) (Fin n))"
    unfolding w_def by (simp add: Vector3_normalize_nonzero n)
  note cx = component_error [OF f(1) refl s0 near cs(1)]
  note cy = component_error [OF f(2) refl s0 near cs(2)]
  note cz = component_error [OF f(3) refl s0 near cs(3)]
  define gx where "gx = valof (x v) / s"
  define gy where "gy = valof (y v) / s"
  define gz where "gz = valof (z v) / s"
  have g1: "\<bar>gx\<bar> \<le> 1" "\<bar>gy\<bar> \<le> 1" "\<bar>gz\<bar> \<le> 1"
    using cs s0 by (simp_all add: gx_def gy_def gz_def)
  have gsum: "gx * gx + gy * gy + gz * gz = 1"
    unfolding gx_def gy_def gz_def by (rule unit_sum) (use S0 in \<open>simp_all add: S_def s_def\<close>)
  have wf: "Vector3_finite w" using cx(1) cy(1) cz(1) by (simp add: w Vector3_finite_def)
  have wx: "\<bar>valof (x w) - gx\<bar> \<le> 1 / 2 ^ 47" using cx(2) by (simp add: w gx_def)
  have wy: "\<bar>valof (y w) - gy\<bar> \<le> 1 / 2 ^ 47" using cy(2) by (simp add: w gy_def)
  have wz: "\<bar>valof (z w) - gz\<bar> \<le> 1 / 2 ^ 47" using cz(2) by (simp add: w gz_def)
  have e1: "(1::real) / 2 ^ 47 \<le> 1" by simp
  note sx = square_near [OF wx g1(1) e1]
  note sy = square_near [OF wy g1(2) e1]
  note sz = square_near [OF wz g1(3) e1]
  define T where "T = valof (x w) * valof (x w) + valof (y w) * valof (y w)
                  + valof (z w) * valof (z w)"
  have p: "(2::real) ^ 47 = 140737488355328" "(2::real) ^ 49 = 562949953421312"
    "(10::real) ^ 12 = 1000000000000" by simp_all
  have T1: "\<bar>T - 1\<bar> \<le> 1 * (9 / 2 ^ 47)"
    using sx sy sz gsum unfolding T_def p by argo
  have two: "(2::real) \<le> 2 ^ 500"
  proof -
    have "(2::real) ^ 1 \<le> 2 ^ 500" by (rule power_increasing) simp_all
    then show ?thesis by simp
  qed
  have wle: "\<bar>valof (x w)\<bar> \<le> 2 ^ 500" "\<bar>valof (y w)\<bar> \<le> 2 ^ 500"
            "\<bar>valof (z w)\<bar> \<le> 2 ^ 500"
    using wx wy wz g1 two unfolding p by linarith+
  have tiny: "(1::real) / 2 ^ 1000 \<le> 1 / 2"
  proof -
    have "(2::real) ^ 1 \<le> 2 ^ 1000" by (rule power_increasing) simp_all
    then show ?thesis by (simp add: field_simps)
  qed
  have Tge: "1 / 2 ^ 1000 \<le> T" using T1 tiny unfolding p by argo
  from Vector3_norm_error [OF wf wle T_def Tge]
  obtain m where m: "Vector3_norm w = Fin m" and mnear: "\<bar>m - sqrt T\<bar> \<le> sqrt T / 2 ^ 49"
    by blast
  have "\<bar>sqrt T - sqrt 1\<bar> \<le> sqrt 1 * (9 / 2 ^ 47)"
    using T1 by (intro sqrt_near) simp_all
  then have r1: "\<bar>sqrt T - 1\<bar> \<le> 9 / 2 ^ 47" by simp
  have "\<bar>m - 1\<bar> \<le> 1 / 10 ^ 12" using mnear r1 unfolding p by argo
  then have "Vector3_norm (Vector3_normalize v) = Fin m \<and> \<bar>m - 1\<bar> \<le> 1 / 10 ^ 12"
    using m by (simp add: w_def)
  then show "\<exists>m. Vector3_norm (Vector3_normalize v) = Fin m \<and> \<bar>m - 1\<bar> \<le> 1 / 10 ^ 12"
    by (rule exI)
qed

section \<open>Running the program on given inputs\<close>

text \<open>The definitions to unfold when the program is run on given inputs.\<close>

lemmas program_defs =
  lineIntersection_def numerator_def denominator_def Plane_norm_def dot_def cross_def add_def
      scale_def subtract_def mk_Plane_def mk_Line_def mk_Tri_def Let_def is_zero_def
      getTangentPlane_def Vector3_norm_def Vector3_normalize_def Tri_norm_def equals_def
      Vector3_default_def Plane_default_def Vector3_double_def Vector3_finite_def epsilon_eq feq_def
      flt_def is_inf_def

section \<open>The claims\<close>

subsection \<open>C1: the point returned by lineIntersection\<close>




subsection \<open>C2: the sentinel of lineIntersection\<close>

text \<open>
  C2: when the dot product of the plane's normal with the direction of the line, as the
  code computes it, compares equal to zero (\<open>denominator == 0\<close>, with no tolerance),
  \<open>lineIntersection\<close> returns the zero vector \<open>(0, 0, 0)\<close>. This is so for a line of
  direction \<open>(1, 0, 0)\<close> and a plane of normal \<open>(0, 0, 1)\<close>.
\<close>

theorem lineIntersection_sentinel:
  "denominator pl line = dot (Plane_norm pl) (d line)
   \<and> (feq (dot (Plane_norm pl) (d line)) (Fin 0) \<longrightarrow> lineIntersection pl line = Vector3_default)
   \<and> (is_zero (x (Plane_norm pl)) \<and> is_zero (y (Plane_norm pl)) \<and> z (Plane_norm pl) = Fin 1
       \<and> x (d line) = Fin 1 \<and> is_zero (y (d line)) \<and> is_zero (z (d line))
        \<longrightarrow> lineIntersection pl line = \<lparr>x = Fin 0, y = Fin 0, z = Fin 0\<rparr>)"
proof -
  have "feq (dot (Plane_norm pl) (d line)) (Fin 0)"
    if h: "is_zero (x (Plane_norm pl)) \<and> is_zero (y (Plane_norm pl)) \<and> z (Plane_norm pl) = Fin 1
           \<and> x (d line) = Fin 1 \<and> is_zero (y (d line)) \<and> is_zero (z (d line))"
  proof -
    have a: "is_zero (fmul (x (Plane_norm pl)) (x (d line)))"
      using h by (simp add: fmul_zero_left)
    have b: "is_zero (fmul (y (Plane_norm pl)) (y (d line)))"
      using h by (simp add: fmul_zero_left is_zero_imp_finite)
    have c: "is_zero (fmul (z (Plane_norm pl)) (z (d line)))"
      using h by (simp add: fmul_zero_right)
    show ?thesis
      unfolding dot_def feq_zero_iff by (intro fadd_zero_zero a b c)
  qed
  then show ?thesis
    using lineIntersection_parallel [of pl line] denominator_eq_dot [of pl line]
    by (auto simp add: Vector3_default_def)
qed

text \<open>
  C2 at the default plane, whose normal is \<open>(0, 0, 1)\<close>, and a line of direction
  \<open>(1, 0, 0)\<close> through \<open>(2, 3, 4)\<close>.
\<close>

theorem lineIntersection_sentinel_witness:
  "Plane_norm Plane_default = mk_Vector3 (Fin 0) (Fin 0) (Fin 1)
   \<and> lineIntersection Plane_default
        (mk_Line (mk_Vector3 (Fin 1) (Fin 0) (Fin 0)) (mk_Vector3 (Fin 2) (Fin 3) (Fin 4)))
       = \<lparr>x = Fin 0, y = Fin 0, z = Fin 0\<rparr>"
proof -
  let ?line = "mk_Line (mk_Vector3 (Fin 1) (Fin 0) (Fin 0)) (mk_Vector3 (Fin 2) (Fin 3) (Fin 4))"
  have h: "is_zero (x (Plane_norm Plane_default)) \<and> is_zero (y (Plane_norm Plane_default))
           \<and> z (Plane_norm Plane_default) = Fin 1
           \<and> x (d ?line) = Fin 1 \<and> is_zero (y (d ?line)) \<and> is_zero (z (d ?line))"
    by (simp add: Plane_norm_default mk_Line_def is_zero_def)
  from h lineIntersection_sentinel [of Plane_default ?line] Plane_norm_default
  show ?thesis by blast
qed

subsection \<open>C3: the tangent plane is perpendicular to the line\<close>




subsection \<open>C4: approximate equality\<close>

text \<open>
  C4, in double arithmetic. \<open>epsilon\<close> is the double nearest to \<open>0.005\<close>, which is
  \<open>5764607523034235 / 2^60\<close>. \<open>equals(a, b)\<close> is true if and only if each component of
  the computed difference \<open>a + (-1 * b)\<close> is finite and of magnitude strictly below
  \<open>epsilon\<close>. So \<open>equals\<close> rejects a computed difference of magnitude exactly
  \<open>epsilon\<close> in some axis, and accepts computed differences of magnitude \<open>epsilon / 2\<close>
  in every axis.
\<close>

theorem equals_box:
  "epsilon = Fin (5764607523034235 / 2 ^ 60)
   \<and> (equals a b \<longleftrightarrow>
        (is_finite (x (subtract a b)) \<and> \<bar>valof (x (subtract a b))\<bar> < valof epsilon) \<and>
        (is_finite (y (subtract a b)) \<and> \<bar>valof (y (subtract a b))\<bar> < valof epsilon) \<and>
        (is_finite (z (subtract a b)) \<and> \<bar>valof (z (subtract a b))\<bar> < valof epsilon))
   \<and> (\<bar>valof (x (subtract a b))\<bar> = valof epsilon \<or> \<bar>valof (y (subtract a b))\<bar> = valof epsilon
        \<or> \<bar>valof (z (subtract a b))\<bar> = valof epsilon \<longrightarrow> \<not> equals a b)
   \<and> ((is_finite (x (subtract a b)) \<and> \<bar>valof (x (subtract a b))\<bar> = valof epsilon / 2) \<and>
       (is_finite (y (subtract a b)) \<and> \<bar>valof (y (subtract a b))\<bar> = valof epsilon / 2) \<and>
       (is_finite (z (subtract a b)) \<and> \<bar>valof (z (subtract a b))\<bar> = valof epsilon / 2)
        \<longrightarrow> equals a b)"
proof -
  have pos: "0 < valof epsilon" by (simp add: epsilon_eq)
  have reject: "\<not> equals a b"
    if "\<bar>valof (x (subtract a b))\<bar> = valof epsilon \<or> \<bar>valof (y (subtract a b))\<bar> = valof epsilon
        \<or> \<bar>valof (z (subtract a b))\<bar> = valof epsilon"
    using that unfolding equals_iff by linarith
  have accept: "equals a b"
    if "(is_finite (x (subtract a b)) \<and> \<bar>valof (x (subtract a b))\<bar> = valof epsilon / 2) \<and>
        (is_finite (y (subtract a b)) \<and> \<bar>valof (y (subtract a b))\<bar> = valof epsilon / 2) \<and>
        (is_finite (z (subtract a b)) \<and> \<bar>valof (z (subtract a b))\<bar> = valof epsilon / 2)"
    using that pos unfolding equals_iff by simp
  from epsilon_eq equals_iff [of a b] reject accept show ?thesis by blast
qed

text \<open>
  C4 at a difference of exactly \<open>epsilon\<close> in the first axis, which is rejected, and at
  differences of \<open>epsilon / 2\<close> in every axis, which are accepted.
\<close>

theorem equals_box_witness:
  "\<not> equals at_epsilon Vector3_default
   \<and> equals half_epsilon Vector3_default
   \<and> Vector3_double at_epsilon
   \<and> Vector3_double half_epsilon"
proof -
  have s1: "fmul (Fin (- 1)) (Fin 0) = NegZero"
    by (simp add: fmul_def is_inf_def is_zero_def zero_of_def inf_of_def)
  have s2: "fadd (Fin (5764607523034235 / 1152921504606846976)) NegZero = Fin (5764607523034235 /
      1152921504606846976)"
    by (simp add: fadd_def is_inf_def)
       (subst round_to_double_eval [where e = "- 8"], simp_all add: round_half_even_def Let_def
           huge_def)
  have s3: "fadd (Fin 0) NegZero = Fin 0"
    by (simp add: fadd_def is_inf_def)
  have s4: "fadd (Fin (5764607523034235 / 2305843009213693952)) NegZero = Fin (5764607523034235 /
      2305843009213693952)"
    by (simp add: fadd_def is_inf_def)
       (subst round_to_double_eval [where e = "- 9"], simp_all add: round_half_even_def Let_def
           huge_def)
  have s5: "fadd (Fin (- (5764607523034235 / 2305843009213693952))) NegZero = Fin (-
      (5764607523034235 / 2305843009213693952))"
    by (simp add: fadd_def is_inf_def)
       (subst round_to_double_eval [where e = "- 9"], simp_all add: round_half_even_def Let_def
           huge_def)
  have s6: "round_to_double (5764607523034235 / 1152921504606846976) = Fin (5764607523034235 /
      1152921504606846976)"
    by (subst round_to_double_eval [where e = "- 8"], simp_all add: round_half_even_def Let_def
        huge_def)
  have s7: "round_to_double (5764607523034235 / 2305843009213693952) = Fin (5764607523034235 /
      2305843009213693952)"
    by (subst round_to_double_eval [where e = "- 9"], simp_all add: round_half_even_def Let_def
        huge_def)
  have s8: "round_to_double (- (5764607523034235 / 2305843009213693952)) = Fin (- (5764607523034235
      / 2305843009213693952))"
    by (subst round_to_double_eval [where e = "- 9"], simp_all add: round_half_even_def Let_def
        huge_def)
  have h1: "\<bar>valof (x (subtract at_epsilon Vector3_default))\<bar> = valof epsilon"
    by (simp add: program_defs s1 s2 s3 s4 s5 s6 s7 s8)
  have h2: "(is_finite (x (subtract half_epsilon Vector3_default)) \<and> \<bar>valof (x (subtract
      half_epsilon Vector3_default))\<bar> = valof epsilon / 2) \<and> (is_finite (y (subtract half_epsilon
      Vector3_default)) \<and> \<bar>valof (y (subtract half_epsilon Vector3_default))\<bar> = valof epsilon / 2) \<and>
      (is_finite (z (subtract half_epsilon Vector3_default)) \<and> \<bar>valof (z (subtract half_epsilon
      Vector3_default))\<bar> = valof epsilon / 2)"
    by (simp add: program_defs s1 s2 s3 s4 s5 s6 s7 s8)
  have dbl: "Vector3_double at_epsilon \<and> Vector3_double half_epsilon"
    by (simp add: program_defs mk_Vector3_def s1 s2 s3 s4 s5 s6 s7 s8)
  from h1 h2 dbl equals_box [of "at_epsilon" Vector3_default] equals_box [of "half_epsilon"
      Vector3_default]
  show ?thesis by blast
qed

text \<open>
  C4 as stated fails. For \<open>a.x = 5764607523034234 / 2^60\<close>, the double just below
  \<open>epsilon\<close>, and \<open>b.x = -3 / 2^62\<close>, the exact difference \<open>a.x - b.x\<close> lies strictly
  between \<open>-0.005\<close> and \<open>0.005\<close> and the other two differences are zero, but the
  computed difference rounds to \<open>epsilon\<close> and \<open>equals(a, b)\<close> is false.
\<close>

theorem equals_rounds:
  "- (5 / 1000) < valof (x below_epsilon) - valof (x small_negative)
   \<and> valof (x below_epsilon) - valof (x small_negative) < 5 / 1000
   \<and> valof (y below_epsilon) - valof (y small_negative) = 0
   \<and> valof (z below_epsilon) - valof (z small_negative) = 0
   \<and> \<not> equals below_epsilon small_negative
   \<and> Vector3_double below_epsilon \<and> Vector3_double small_negative"
proof -
  have s1: "fmul (Fin (- 1)) (Fin (- (3 / 4611686018427387904))) = Fin (3 / 4611686018427387904)"
    by (simp add: fmul_def is_inf_def is_zero_def zero_of_def inf_of_def)
       (subst round_to_double_eval [where e = "- 61"], simp_all add: round_half_even_def Let_def
           huge_def)
  have s2: "fmul (Fin (- 1)) (Fin 0) = NegZero"
    by (simp add: fmul_def is_inf_def is_zero_def zero_of_def inf_of_def)
  have s3: "fadd (Fin (2882303761517117 / 576460752303423488)) (Fin (3 / 4611686018427387904)) = Fin
      (5764607523034235 / 1152921504606846976)"
    by (simp add: fadd_def is_inf_def)
       (subst round_to_double_eval [where e = "- 8"], simp_all add: round_half_even_def Let_def
           huge_def)
  have s4: "fadd (Fin 0) NegZero = Fin 0"
    by (simp add: fadd_def is_inf_def)
  have s5: "\<not> flt (Fin (5764607523034235 / 1152921504606846976)) (Fin (5764607523034235 /
      1152921504606846976))"
    by (simp add: flt_def)
  have s6: "flt (Fin 0) (Fin (5764607523034235 / 1152921504606846976))"
    by (simp add: flt_def)
  have s7: "fneg (Fin (5764607523034235 / 1152921504606846976)) = Fin (- (5764607523034235 /
      1152921504606846976))"
    by simp
  have s8: "flt (Fin (- (5764607523034235 / 1152921504606846976))) (Fin 0)"
    by (simp add: flt_def)
  have s9: "round_to_double (2882303761517117 / 576460752303423488) = Fin (2882303761517117 /
      576460752303423488)"
    by (subst round_to_double_eval [where e = "- 8"], simp_all add: round_half_even_def Let_def
        huge_def)
  have s10: "round_to_double (- (3 / 4611686018427387904)) = Fin (- (3 / 4611686018427387904))"
    by (subst round_to_double_eval [where e = "- 61"], simp_all add: round_half_even_def Let_def
        huge_def)
  show ?thesis
    by (simp add: program_defs 
          s1 s2 s3 s4 s5 s6 s7 s8 s9 s10)
qed

subsection \<open>C5: the string form\<close>




subsection \<open>C6: the two cases of normalize\<close>

text \<open>
  C6, in double arithmetic. When the computed norm compares equal to zero, \<open>normalize\<close>
  leaves the vector as it is; otherwise each of the three components is divided by the
  computed norm. The zero vector has the norm zero. No division takes place in the first
  case: dividing a finite number by a zero would change it. The computed norm is not the
  Euclidean norm, and it is zero for some vectors other than the zero vector.
\<close>

theorem normalize_cases:
  "(feq (Vector3_norm v) (Fin 0) \<longrightarrow> Vector3_normalize v = v)
   \<and> (\<not> feq (Vector3_norm v) (Fin 0) \<longrightarrow>
        Vector3_normalize v =
          mk_Vector3 (fdiv (x v) (Vector3_norm v)) (fdiv (y v) (Vector3_norm v))
                     (fdiv (z v) (Vector3_norm v)))
   \<and> Vector3_norm Vector3_default = Fin 0
   \<and> (is_zero (Vector3_norm v) \<and> is_finite c \<longrightarrow> fdiv c (Vector3_norm v) \<noteq> c)"
proof -
  have "Vector3_norm Vector3_default = Fin 0"
    by (rule Vector3_norm_zeros) (simp_all add: Vector3_default_def is_zero_def)
  then show ?thesis
    using Vector3_normalize_zero [of v] Vector3_normalize_nonzero [of v]
      fdiv_by_zero_changes [of "Vector3_norm v" c]
    by blast
qed

text \<open>
  C6 at the zero vector, which stays as it is, and at \<open>(3, 4, 0)\<close>, of norm \<open>5\<close>, whose
  components become the doubles nearest to \<open>0.6\<close> and \<open>0.8\<close>, and \<open>0\<close>.
\<close>

theorem normalize_cases_witness:
  "Vector3_normalize Vector3_default = Vector3_default
   \<and> Vector3_normalize vector_3_4_0 = mk_Vector3 (Fin (5404319552844595 / 9007199254740992)) (Fin
       (3602879701896397 / 4503599627370496)) (Fin 0)
   \<and> fdiv (Fin 0) (Vector3_norm Vector3_default) \<noteq> Fin 0"
proof -
  have s1: "fmul (Fin 0) (Fin 0) = Fin 0"
    by (simp add: fmul_def is_inf_def is_zero_def zero_of_def inf_of_def)
  have s2: "fadd (Fin 0) (Fin 0) = Fin 0"
    by (simp add: fadd_def is_inf_def)
  have s3: "fsqrt (Fin 0) = Fin 0"
    by simp
  have s4: "fmul (Fin 3) (Fin 3) = Fin 9"
    by (simp add: fmul_def is_inf_def is_zero_def zero_of_def inf_of_def)
       (subst round_to_double_eval [where e = "3"], simp_all add: round_half_even_def Let_def
           huge_def)
  have s5: "fmul (Fin 4) (Fin 4) = Fin 16"
    by (simp add: fmul_def is_inf_def is_zero_def zero_of_def inf_of_def)
       (subst round_to_double_eval [where e = "4"], simp_all add: round_half_even_def Let_def
           huge_def)
  have s6: "fadd (Fin 9) (Fin 16) = Fin 25"
    by (simp add: fadd_def is_inf_def)
       (subst round_to_double_eval [where e = "4"], simp_all add: round_half_even_def Let_def
           huge_def)
  have s7: "fadd (Fin 25) (Fin 0) = Fin 25"
    by (simp add: fadd_def is_inf_def)
       (subst round_to_double_eval [where e = "4"], simp_all add: round_half_even_def Let_def
           huge_def)
  have s8: "fsqrt (Fin 25) = Fin 5"
  proof -
    have "sqrt (25) = 5"
      by (rule real_sqrt_unique) simp_all
    then show ?thesis
      by simp (subst round_to_double_eval [where e = "2"], simp_all add: round_half_even_def Let_def
          huge_def)
  qed
  have s9: "round_to_double (5) = Fin 5"
    by (subst round_to_double_eval [where e = "2"], simp_all add: round_half_even_def Let_def
        huge_def)
  have s10: "\<not> feq (Fin 5) (Fin 0)"
    by (simp add: feq_def is_inf_def)
  have s11: "fdiv (Fin 3) (Fin 5) = Fin (5404319552844595 / 9007199254740992)"
    by (simp add: fdiv_def is_inf_def is_zero_def zero_of_def inf_of_def)
       (subst round_to_double_eval [where e = "- 1"], simp_all add: round_half_even_def Let_def
           huge_def)
  have s12: "fdiv (Fin 4) (Fin 5) = Fin (3602879701896397 / 4503599627370496)"
    by (simp add: fdiv_def is_inf_def is_zero_def zero_of_def inf_of_def)
       (subst round_to_double_eval [where e = "- 1"], simp_all add: round_half_even_def Let_def
           huge_def)
  have s13: "fdiv (Fin 0) (Fin 5) = Fin 0"
    by (simp add: fdiv_def is_inf_def is_zero_def zero_of_def inf_of_def)
  have s14: "fdiv (Fin 0) (Fin 0) = NaN"
    by (simp add: fdiv_def is_inf_def is_zero_def zero_of_def inf_of_def)
  have h1: "feq (Vector3_norm Vector3_default) (Fin 0)"
    by (simp add: program_defs mk_Vector3_def s1 s2 s3 s4 s5 s6 s7 s8 s9 s10 s11 s12 s13 s14)
  have h2: "\<not> feq (Vector3_norm vector_3_4_0) (Fin 0)"
    by (simp add: program_defs mk_Vector3_def s1 s2 s3 s4 s5 s6 s7 s8 s9 s10 s11 s12 s13 s14)
  have h3: "is_zero (Vector3_norm Vector3_default) \<and> is_finite (Fin 0)"
    by (simp add: program_defs mk_Vector3_def s1 s2 s3 s4 s5 s6 s7 s8 s9 s10 s11 s12 s13 s14)
  from h1 h2 h3
    normalize_cases [of Vector3_default "Fin 0"]
    normalize_cases [of "vector_3_4_0" "Fin 0"]
  have "Vector3_normalize Vector3_default = Vector3_default
   \<and> Vector3_normalize vector_3_4_0 = mk_Vector3 (fdiv (x vector_3_4_0) (Vector3_norm vector_3_4_0))
       (fdiv (y vector_3_4_0) (Vector3_norm vector_3_4_0)) (fdiv (z vector_3_4_0) (Vector3_norm
       vector_3_4_0))
   \<and> fdiv (Fin 0) (Vector3_norm Vector3_default) \<noteq> Fin 0"
    by blast
  then show ?thesis
    by (simp add: program_defs mk_Vector3_def s1 s2 s3 s4 s5 s6 s7 s8 s9 s10 s11 s12 s13 s14)
qed

text \<open>
  C6 as stated fails. The vector \<open>(2^-538, 0, 0)\<close> is made of doubles and is not the zero
  vector, but its square underflows to zero and its computed norm is zero: \<open>normalize\<close>
  leaves it as it is instead of dividing it by its Euclidean norm.
\<close>

theorem normalize_underflows:
  "feq (Vector3_norm tiny_vector) (Fin 0)
   \<and> Vector3_normalize tiny_vector = tiny_vector
   \<and> tiny_vector \<noteq> Vector3_default
   \<and> valof (x tiny_vector) = 1 / 2 ^ 538
   \<and> Vector3_double tiny_vector"
proof -
  have s1: "fmul (Fin (1 /
      899782758908639276562107701537196371773939423660383326620151114522367516134297574063808137220778171429984182126704179024641653211098859937801703036173032771026944))
      (Fin (1 /
      899782758908639276562107701537196371773939423660383326620151114522367516134297574063808137220778171429984182126704179024641653211098859937801703036173032771026944))
      = Fin 0"
    by (simp add: fmul_def is_inf_def is_zero_def zero_of_def inf_of_def)
       (subst round_to_double_eval [where e = "- 1076"], simp_all add: round_half_even_def Let_def
           huge_def)
  have s2: "fmul (Fin 0) (Fin 0) = Fin 0"
    by (simp add: fmul_def is_inf_def is_zero_def zero_of_def inf_of_def)
  have s3: "fadd (Fin 0) (Fin 0) = Fin 0"
    by (simp add: fadd_def is_inf_def)
  have s4: "fsqrt (Fin 0) = Fin 0"
    by simp
  have s5: "feq (Fin 0) (Fin 0)"
    by (simp add: feq_def is_inf_def)
  have s6: "round_to_double (1 /
      899782758908639276562107701537196371773939423660383326620151114522367516134297574063808137220778171429984182126704179024641653211098859937801703036173032771026944)
      = Fin (1 /
      899782758908639276562107701537196371773939423660383326620151114522367516134297574063808137220778171429984182126704179024641653211098859937801703036173032771026944)"
    by (subst round_to_double_eval [where e = "- 538"], simp_all add: round_half_even_def Let_def
        huge_def)
  show ?thesis
    by (simp add: program_defs mk_Vector3_def
          s1 s2 s3 s4 s5 s6)
qed

subsection \<open>C7: the norm of a normalised vector\<close>

text \<open>
  C7, in double arithmetic, for vectors of moderate size. When the components of \<open>v\<close>
  are finite and of magnitude at most \<open>2^500\<close>, and one of them has magnitude at least
  \<open>2^-500\<close>, no square overflows and the sum of the squares does not underflow: the
  computed norm of \<open>v\<close> is a positive number, and the computed norm of \<open>normalize(v)\<close>
  is within \<open>10^-12\<close> of \<open>1\<close>, hence within \<open>epsilon\<close>.
\<close>

theorem normalize_unit_norm:
  "Vector3_finite v
   \<and> \<bar>valof (x v)\<bar> \<le> 2 ^ 500 \<and> \<bar>valof (y v)\<bar> \<le> 2 ^ 500 \<and> \<bar>valof (z v)\<bar> \<le> 2 ^ 500
   \<and> (1 / 2 ^ 500 \<le> \<bar>valof (x v)\<bar> \<or> 1 / 2 ^ 500 \<le> \<bar>valof (y v)\<bar>
        \<or> 1 / 2 ^ 500 \<le> \<bar>valof (z v)\<bar>)
   \<longrightarrow> (\<exists>n. Vector3_norm v = Fin n \<and> 0 < n)
     \<and> (\<exists>m. Vector3_norm (Vector3_normalize v) = Fin m
            \<and> \<bar>m - 1\<bar> \<le> 1 / 10 ^ 12 \<and> \<bar>m - 1\<bar> < valof epsilon)"
proof
  assume h: "Vector3_finite v
   \<and> \<bar>valof (x v)\<bar> \<le> 2 ^ 500 \<and> \<bar>valof (y v)\<bar> \<le> 2 ^ 500 \<and> \<bar>valof (z v)\<bar> \<le> 2 ^ 500
   \<and> (1 / 2 ^ 500 \<le> \<bar>valof (x v)\<bar> \<or> 1 / 2 ^ 500 \<le> \<bar>valof (y v)\<bar>
        \<or> 1 / 2 ^ 500 \<le> \<bar>valof (z v)\<bar>)"
  then have fin: "Vector3_finite v"
    and le: "\<bar>valof (x v)\<bar> \<le> 2 ^ 500" "\<bar>valof (y v)\<bar> \<le> 2 ^ 500"
            "\<bar>valof (z v)\<bar> \<le> 2 ^ 500"
    and ge: "1 / 2 ^ 500 \<le> \<bar>valof (x v)\<bar> \<or> 1 / 2 ^ 500 \<le> \<bar>valof (y v)\<bar>
              \<or> 1 / 2 ^ 500 \<le> \<bar>valof (z v)\<bar>"
    by blast+
  note r = normalize_unit_norm_aux [OF fin le ge]
  from r(2) obtain m where m: "Vector3_norm (Vector3_normalize v) = Fin m"
    and m1: "\<bar>m - 1\<bar> \<le> 1 / 10 ^ 12" by blast
  have "(1::real) / 10 ^ 12 < 5764607523034235 / 2 ^ 60" by simp
  with m1 have "\<bar>m - 1\<bar> < valof epsilon" by (simp only: epsilon_eq valof.simps)
  with m m1 have "\<exists>m. Vector3_norm (Vector3_normalize v) = Fin m
            \<and> \<bar>m - 1\<bar> \<le> 1 / 10 ^ 12 \<and> \<bar>m - 1\<bar> < valof epsilon" by blast
  with r(1) show "(\<exists>n. Vector3_norm v = Fin n \<and> 0 < n)
     \<and> (\<exists>m. Vector3_norm (Vector3_normalize v) = Fin m
            \<and> \<bar>m - 1\<bar> \<le> 1 / 10 ^ 12 \<and> \<bar>m - 1\<bar> < valof epsilon)" by (rule conjI)
qed

text \<open>
  C7 at the vector \<open>(3, -4, -0.0)\<close>.
\<close>

theorem normalize_unit_norm_witness:
  "Vector3_finite vector_3_m4_m0
   \<and> \<bar>valof (x vector_3_m4_m0)\<bar> \<le> 2 ^ 500
   \<and> \<bar>valof (y vector_3_m4_m0)\<bar> \<le> 2 ^ 500
   \<and> \<bar>valof (z vector_3_m4_m0)\<bar> \<le> 2 ^ 500
   \<and> 1 / 2 ^ 500 \<le> \<bar>valof (x vector_3_m4_m0)\<bar>
   \<and> (\<exists>n. Vector3_norm vector_3_m4_m0 = Fin n \<and> 0 < n)
   \<and> (\<exists>m. Vector3_norm (Vector3_normalize vector_3_m4_m0) = Fin m
          \<and> \<bar>m - 1\<bar> \<le> 1 / 10 ^ 12 \<and> \<bar>m - 1\<bar> < valof epsilon)"
proof -
  have h: "Vector3_finite vector_3_m4_m0
   \<and> \<bar>valof (x vector_3_m4_m0)\<bar> \<le> 2 ^ 500
   \<and> \<bar>valof (y vector_3_m4_m0)\<bar> \<le> 2 ^ 500
   \<and> \<bar>valof (z vector_3_m4_m0)\<bar> \<le> 2 ^ 500
   \<and> 1 / 2 ^ 500 \<le> \<bar>valof (x vector_3_m4_m0)\<bar>"
    by (simp add: Vector3_finite_def)
  from h normalize_unit_norm [of "vector_3_m4_m0"]
  show ?thesis by blast
qed

text \<open>
  C7 as stated fails. The norm of \<open>(2^512, 0, 0)\<close> is computed as infinity, since the
  square \<open>2^1024\<close> overflows. It is greater than zero, every component divided by it is
  zero, and the norm of the result is \<open>0\<close>, not within \<open>epsilon\<close> of \<open>1\<close>.
\<close>

theorem normalize_overflows:
  "Vector3_norm big_vector = PInf
   \<and> flt (Fin 0) (Vector3_norm big_vector)
   \<and> Vector3_norm (Vector3_normalize big_vector) = Fin 0
   \<and> \<not> \<bar>valof (Vector3_norm (Vector3_normalize big_vector)) - 1\<bar> < valof epsilon
   \<and> Vector3_double big_vector"
proof -
  have s1: "fmul (Fin
      13407807929942597099574024998205846127479365820592393377723561443721764030073546976801874298166903427690031858186486050853753882811946569946433649006084096)
      (Fin
      13407807929942597099574024998205846127479365820592393377723561443721764030073546976801874298166903427690031858186486050853753882811946569946433649006084096)
      = PInf"
    by (simp add: fmul_def is_inf_def is_zero_def zero_of_def inf_of_def)
       (subst round_to_double_eval [where e = "1024"], simp_all add: round_half_even_def Let_def
           huge_def)
  have s2: "fmul (Fin 0) (Fin 0) = Fin 0"
    by (simp add: fmul_def is_inf_def is_zero_def zero_of_def inf_of_def)
  have s3: "fadd PInf (Fin 0) = PInf"
    by (simp add: fadd_def is_inf_def)
  have s4: "fsqrt PInf = PInf"
    by simp
  have s5: "flt (Fin 0) PInf"
    by (simp add: flt_def)
  have s6: "\<not> feq PInf (Fin 0)"
    by (simp add: feq_def is_inf_def)
  have s7: "fdiv (Fin
      13407807929942597099574024998205846127479365820592393377723561443721764030073546976801874298166903427690031858186486050853753882811946569946433649006084096)
      PInf = Fin 0"
    by (simp add: fdiv_def is_inf_def is_zero_def zero_of_def inf_of_def)
  have s8: "fdiv (Fin 0) PInf = Fin 0"
    by (simp add: fdiv_def is_inf_def is_zero_def zero_of_def inf_of_def)
  have s9: "fadd (Fin 0) (Fin 0) = Fin 0"
    by (simp add: fadd_def is_inf_def)
  have s10: "fsqrt (Fin 0) = Fin 0"
    by simp
  have s11: "round_to_double
      (13407807929942597099574024998205846127479365820592393377723561443721764030073546976801874298166903427690031858186486050853753882811946569946433649006084096)
      = Fin
      13407807929942597099574024998205846127479365820592393377723561443721764030073546976801874298166903427690031858186486050853753882811946569946433649006084096"
    by (subst round_to_double_eval [where e = "512"], simp_all add: round_half_even_def Let_def
        huge_def)
  show ?thesis
    by (simp add: program_defs mk_Vector3_def
          s1 s2 s3 s4 s5 s6 s7 s8 s9 s10 s11)
qed

subsection \<open>C8: the normal of a triangle\<close>




subsection \<open>C9: the normal of the tangent plane\<close>




subsection \<open>C10: the constructors of Object\<close>

text \<open>
  C10: both \<open>Object\<close> constructors leave \<open>position\<close> and \<open>rotation\<close> at the zero vector;
  the default constructor leaves the triangle sequence empty, and the other one stores the
  sequence it is given.
\<close>

theorem Object_constructors:
  "position Object_default = \<lparr>x = Fin 0, y = Fin 0, z = Fin 0\<rparr>
   \<and> rotation Object_default = \<lparr>x = Fin 0, y = Fin 0, z = Fin 0\<rparr>
   \<and> tris Object_default = []
   \<and> position (mk_Object ts) = \<lparr>x = Fin 0, y = Fin 0, z = Fin 0\<rparr>
   \<and> rotation (mk_Object ts) = \<lparr>x = Fin 0, y = Fin 0, z = Fin 0\<rparr>
   \<and> tris (mk_Object ts) = ts"
  by (simp add: mk_Object_def Object_default_def Vector3_default_def)

end
